theory Spec2Isabelle
  imports Complex_Main
begin

section \<open>A spiking network on MNIST: the notebook \<open>Class_MNIST_LC.ipynb\<close>\<close>

text \<open>
  The notebook is a linear script around two libraries (PyTorch and snnTorch). Its own
  code is the class \<open>Net\<close> (constructor and \<open>forward\<close>), a training loop and a test
  loop. The library primitives it calls (\<open>nn.Linear\<close>, \<open>snn.Leaky\<close>,
  \<open>spikegen.latency\<close>, \<open>spikegen.rate\<close>, \<open>Tensor.view\<close>, \<open>nn.CrossEntropyLoss\<close>,
  autograd and the Adam update) are not part of the repository: they are parameters of
  the model, gathered in the record \<open>torch\<close>, and those that check the shape of
  their arguments may raise. Everything proved below therefore holds for whatever these
  primitives compute. The tensor operations
  whose result the notebook inspects itself (\<open>x[step]\<close>, \<open>torch.stack\<close>,
  \<open>sum(dim=0)\<close>, \<open>max(1)\<close>, \<open>==\<close>, \<open>size(0)\<close>) are written out on nested lists:
  a tensor with a leading time dimension is the list of its time slices, a slice of the
  network's output is a list (batch) of rows (classes). Tensor entries are real numbers.
\<close>

subsection \<open>Exceptions\<close>

datatype error = IndexError | RuntimeError | NameError | ZeroDivisionError

definition bind_err :: "error + 'a \<Rightarrow> ('a \<Rightarrow> error + 'b) \<Rightarrow> error + 'b" where
  "bind_err m f = (case m of Inl e \<Rightarrow> Inl e | Inr v \<Rightarrow> f v)"

text \<open>A Python \<open>for\<close> loop over a finite sequence whose body may raise.\<close>

fun for_loop :: "'a list \<Rightarrow> ('a \<Rightarrow> 's \<Rightarrow> error + 's) \<Rightarrow> 's \<Rightarrow> error + 's" where
  "for_loop [] body s = Inr s"
| "for_loop (i # is) body s = bind_err (body i s) (for_loop is body)"

text \<open>\<open>range(n)\<close>\<close>

definition py_range :: "nat \<Rightarrow> nat list" where
  "py_range n = [0..<n]"

subsection \<open>Global variables of the notebook\<close>

record Adam =
  lr :: real
  betas :: "real \<times> real"

record globals =
  num_inputs :: nat
  num_hidden :: nat
  num_outputs :: nat
  num_steps :: nat
  beta :: real
  num_epochs :: nat

definition default_globals :: globals where
  "default_globals =
     \<lparr>num_inputs = 28 * 28, num_hidden = 64, num_outputs = 10,
      num_steps = 30, beta = 95 / 100, num_epochs = 1\<rparr>"


subsection \<open>The class \<open>Net\<close>\<close>

record 'w Linear =
  in_features :: nat
  out_features :: nat
  weight :: 'w
  bias :: 'w

record Leaky =
  lif_beta :: real

type_synonym 'w params = "('w \<times> 'w) \<times> ('w \<times> 'w) \<times> ('w \<times> 'w)"

definition nn_Linear :: "nat \<Rightarrow> nat \<Rightarrow> 'w \<times> 'w \<Rightarrow> 'w Linear" where
  "nn_Linear i o' wb = \<lparr>in_features = i, out_features = o', weight = fst wb, bias = snd wb\<rparr>"

definition snn_Leaky :: "real \<Rightarrow> Leaky" where
  "snn_Leaky b = \<lparr>lif_beta = b\<rparr>"

record 'w Net =
  fc1 :: "'w Linear"
  lif1 :: Leaky
  fc2 :: "'w Linear"
  lif2 :: Leaky
  fc3 :: "'w Linear"
  lif3 :: Leaky
  training :: bool

text \<open>
  \<open>Net.__init__\<close>. The initial weights and biases are drawn by the library; they are
  the argument \<open>p\<close>. A fresh \<open>nn.Module\<close> is in training mode.
\<close>

definition Net_init :: "globals \<Rightarrow> 'w params \<Rightarrow> 'w Net" where
  "Net_init g p =
     \<lparr>fc1 = nn_Linear (num_inputs g) (num_hidden g) (fst p),
      lif1 = snn_Leaky (beta g),
      fc2 = nn_Linear (num_hidden g) 64 (fst (snd p)),
      lif2 = snn_Leaky (beta g),
      fc3 = nn_Linear 64 (num_outputs g) (snd (snd p)),
      lif3 = snn_Leaky (beta g),
      training = True\<rparr>"

text \<open>The submodules in the order of their registration (\<open>net.children()\<close>).\<close>

datatype 'w submodule = FC "'w Linear" | LIF Leaky

definition children :: "'w Net \<Rightarrow> 'w submodule list" where
  "children net =
     [FC (fc1 net), LIF (lif1 net), FC (fc2 net), LIF (lif2 net), FC (fc3 net), LIF (lif3 net)]"

text \<open>
  The chain of layer widths and LIF stages that \<open>forward\<close> sends a time slice through:
  the width of the input, then for every linear layer the width of its output and for
  every \<open>Leaky\<close> module an LIF stage.
\<close>

datatype stage = Units nat | Lif

fun stages_of :: "'w submodule \<Rightarrow> stage list" where
  "stages_of (FC l) = [Units (out_features l)]"
| "stages_of (LIF l) = [Lif]"

definition topology :: "'w Net \<Rightarrow> stage list" where
  "topology net = Units (in_features (fc1 net)) # concat (map stages_of (children net))"

text \<open>
  The chain in the words of the specification, for comparison: input layer (784 units),
  LIF, hidden layer (64 units), LIF, hidden layer (64 units), LIF, output layer
  (10 units), LIF.
\<close>

definition spec_topology :: "stage list" where
  "spec_topology = [Units 784, Lif, Units 64, Lif, Units 64, Lif, Units 10, Lif]"

text \<open>\<open>net.parameters()\<close>: the weights and biases of the three linear layers.\<close>

definition parameters :: "'w Net \<Rightarrow> 'w params" where
  "parameters net =
     ((weight (fc1 net), bias (fc1 net)),
      (weight (fc2 net), bias (fc2 net)),
      (weight (fc3 net), bias (fc3 net)))"

definition set_parameters :: "'w Net \<Rightarrow> 'w params \<Rightarrow> 'w Net" where
  "set_parameters net p =
     net\<lparr>fc1 := (fc1 net)\<lparr>weight := fst (fst p), bias := snd (fst p)\<rparr>,
         fc2 := (fc2 net)\<lparr>weight := fst (fst (snd p)), bias := snd (fst (snd p))\<rparr>,
         fc3 := (fc3 net)\<lparr>weight := fst (snd (snd p)), bias := snd (snd (snd p))\<rparr>\<rparr>"

subsection \<open>The library primitives\<close>

text \<open>
  \<open>'w\<close> is the type of a parameter tensor, \<open>'t\<close> of a time slice handled by the layers,
  \<open>'img\<close> of an image, \<open>'e\<close> of an encoded batch before \<open>view\<close>, and \<open>'s\<close> of the
  framework's hidden state (random number generator, gradient buffers, Adam's moments).
  \<open>backward\<close> receives the loss as a function of the network, which is what reverse-mode
  differentiation differentiates, and the network at which it does so.
\<close>

record ('w, 't, 'img, 'e, 's) torch =
  Linear_call :: "'w Linear \<Rightarrow> 't \<Rightarrow> error + 't"
  Leaky_call :: "Leaky \<Rightarrow> 't \<Rightarrow> 't \<Rightarrow> error + ('t \<times> 't)"
  init_leaky :: "Leaky \<Rightarrow> 't"
  latency :: "'img list \<Rightarrow> nat \<Rightarrow> error + 'e"
  rate :: "'img list \<Rightarrow> nat \<Rightarrow> 's \<Rightarrow> error + ('e \<times> 's)"
  view :: "'e \<Rightarrow> nat \<Rightarrow> nat \<Rightarrow> error + 't list"
  CE_loss :: "'t \<Rightarrow> nat list \<Rightarrow> error + real"
  zero_grad :: "'s \<Rightarrow> 's"
  backward :: "('w Net \<Rightarrow> error + real) \<Rightarrow> 'w Net \<Rightarrow> 's \<Rightarrow> 's"
  adam_step :: "Adam \<Rightarrow> 'w params \<Rightarrow> 's \<Rightarrow> 'w params \<times> 's"

subsection \<open>\<open>Net.forward\<close>\<close>

text \<open>\<open>x[step]\<close> for \<open>step \<ge> 0\<close>: out of range raises.\<close>

definition getitem :: "'a list \<Rightarrow> nat \<Rightarrow> error + 'a" where
  "getitem x i = (if i < length x then Inr (x ! i) else Inl IndexError)"

text \<open>\<open>torch.stack(ts, dim=0)\<close>: the list of the slices; an empty list raises.\<close>

definition stack :: "'t list \<Rightarrow> error + 't list" where
  "stack ts = (if ts = [] then Inl RuntimeError else Inr ts)"

text \<open>The local variables of \<open>forward\<close> that the time loop updates.\<close>

record 't locals =
  mem1 :: 't
  mem2 :: 't
  mem3 :: 't
  spk3_rec :: "'t list"
  mem3_rec :: "'t list"

definition forward_body ::
  "('w, 't, 'img, 'e, 's) torch \<Rightarrow> 'w Net \<Rightarrow> 't list \<Rightarrow> nat \<Rightarrow> 't locals \<Rightarrow> error + 't locals" where
  "forward_body T net x step l =
     bind_err (getitem x step) (\<lambda>xs.
     bind_err (Linear_call T (fc1 net) xs) (\<lambda>cur1.
     bind_err (Leaky_call T (lif1 net) cur1 (mem1 l)) (\<lambda>(spk1, m1).
     bind_err (Linear_call T (fc2 net) spk1) (\<lambda>cur2.
     bind_err (Leaky_call T (lif2 net) cur2 (mem2 l)) (\<lambda>(spk2, m2).
     bind_err (Linear_call T (fc3 net) spk2) (\<lambda>cur3.
     bind_err (Leaky_call T (lif3 net) cur3 (mem3 l)) (\<lambda>(spk3, m3).
       Inr \<lparr>mem1 = m1, mem2 = m2, mem3 = m3,
            spk3_rec = spk3_rec l @ [spk3], mem3_rec = mem3_rec l @ [m3]\<rparr>)))))))"

definition forward_init :: "('w, 't, 'img, 'e, 's) torch \<Rightarrow> 'w Net \<Rightarrow> 't locals" where
  "forward_init T net =
     \<lparr>mem1 = init_leaky T (lif1 net), mem2 = init_leaky T (lif2 net),
      mem3 = init_leaky T (lif3 net), spk3_rec = [], mem3_rec = []\<rparr>"

definition forward_return :: "'t locals \<Rightarrow> error + ('t list \<times> 't list)" where
  "forward_return l =
     bind_err (stack (spk3_rec l)) (\<lambda>s.
     bind_err (stack (mem3_rec l)) (\<lambda>m. Inr (s, m)))"

definition forward ::
  "('w, 't, 'img, 'e, 's) torch \<Rightarrow> globals \<Rightarrow> 'w Net \<Rightarrow> 't list \<Rightarrow> error + ('t list \<times> 't list)" where
  "forward T g net x =
     bind_err (for_loop (py_range (num_steps g)) (forward_body T net x) (forward_init T net))
       forward_return"

subsection \<open>Tensor operations of the test loop\<close>

text \<open>
  \<open>outputs.sum(dim=0)\<close> on a tensor of shape (time, batch, classes): entry \<open>(b, c)\<close> of
  the result is the sum over the time slices \<open>u\<close> of \<open>u[b][c]\<close>. The shape is read off the
  first slice (a tensor is rectangular). \<open>torch.stack\<close> never returns an empty tensor.
\<close>

fun sum_dim0 :: "real list list list \<Rightarrow> real list list" where
  "sum_dim0 [] = []"
| "sum_dim0 (t # ts) =
     map (\<lambda>b. map (\<lambda>c. sum_list (map (\<lambda>u. u ! b ! c) (t # ts))) [0..<length (t ! b)])
       [0..<length t]"

text \<open>
  \<open>max\<close> along a row: the largest entry and the index of its first occurrence.
  \<open>row_max m i j ys\<close> scans \<open>ys\<close>, whose first entry has index \<open>j\<close>, with the best
  value \<open>m\<close> so far, found at index \<open>i\<close>. An empty row raises.
\<close>

fun row_max :: "real \<Rightarrow> nat \<Rightarrow> nat \<Rightarrow> real list \<Rightarrow> real \<times> nat" where
  "row_max m i j [] = (m, i)"
| "row_max m i j (y # ys) = (if m < y then row_max y j (Suc j) ys else row_max m i (Suc j) ys)"

fun max_row :: "real list \<Rightarrow> error + (real \<times> nat)" where
  "max_row [] = Inl RuntimeError"
| "max_row (y # ys) = Inr (row_max y 0 1 ys)"

text \<open>\<open>t.max(1)\<close> on a tensor of shape (batch, classes): the values and the indices.\<close>

fun max1 :: "real list list \<Rightarrow> error + (real list \<times> nat list)" where
  "max1 [] = Inr ([], [])"
| "max1 (r # rs) =
     bind_err (max_row r) (\<lambda>(m, i).
     bind_err (max1 rs) (\<lambda>(ms, is). Inr (m # ms, i # is)))"

text \<open>
  \<open>(pred == targets).sum().item()\<close> on two tensors of one dimension. Tensors of equal
  length are compared entry by entry; a tensor of length 1 is broadcast against the
  other; any other pair of lengths raises.
\<close>

definition count_eq :: "nat list \<Rightarrow> nat list \<Rightarrow> int" where
  "count_eq xs ys = int (length (filter (\<lambda>(x, y). x = y) (zip xs ys)))"

definition eq_sum :: "nat list \<Rightarrow> nat list \<Rightarrow> error + int" where
  "eq_sum pred targets =
     (if length pred = length targets then Inr (count_eq pred targets)
      else if length targets = 1 then Inr (count_eq pred (replicate (length pred) (targets ! 0)))
      else if length pred = 1 then Inr (count_eq (replicate (length targets) (pred ! 0)) targets)
      else Inl RuntimeError)"

subsection \<open>The state of the script\<close>

text \<open>
  The calls with an effect outside the script's own variables, and the lines printed,
  are recorded in the order in which they happen. The field \<open>total_seen\<close> is the
  variable \<open>total\<close> of the test loop; \<open>loss_val\<close> is \<open>None\<close> while the variable is
  unbound.
\<close>

datatype 'img event =
    Net_train
  | Net_eval
  | No_grad_enter
  | No_grad_exit
  | Spikegen_latency "'img list" nat
  | Spikegen_rate "'img list" nat
  | Zero_grad
  | Backward real
  | Optimizer_step Adam
  | Print_loss nat nat real
  | Print_accuracy real

record ('w, 'img, 's) state =
  net :: "'w Net"
  torch_state :: 's
  grad_enabled :: bool
  loss_hist :: "real list"
  loss_val :: "real option"
  correct :: int
  total_seen :: int
  trace :: "'img event list"

definition emit :: "'img event list \<Rightarrow> ('w, 'img, 's) state \<Rightarrow> ('w, 'img, 's) state" where
  "emit es s = s\<lparr>trace := trace s @ es\<rparr>"

type_synonym 'img batch = "'img list \<times> nat list"

subsection \<open>The training loop\<close>







subsection \<open>The test loop\<close>

definition test_batch ::
  "('w, real list list, 'img, 'e, 's) torch \<Rightarrow> globals \<Rightarrow> 'img batch \<Rightarrow> ('w, 'img, 's) state
     \<Rightarrow> error + ('w, 'img, 's) state" where
  "test_batch T g b s =
     (case b of (data, targets) \<Rightarrow>
     bind_err (rate T data (num_steps g) (torch_state s)) (\<lambda>(spike_data, ts).
     bind_err (view T spike_data (num_steps g) (length data)) (\<lambda>spike_data.
     bind_err (forward T g (net s) spike_data) (\<lambda>(outputs, mem).
     bind_err (max1 (sum_dim0 outputs)) (\<lambda>(vals, pred).
     bind_err (eq_sum pred targets) (\<lambda>c.
       Inr (emit [Spikegen_rate data (num_steps g)]
              (s\<lparr>torch_state := ts, correct := correct s + c,
                 total_seen := total_seen s + int (length targets)\<rparr>))))))))"

text \<open>
  \<open>net.eval()\<close>, the counters, the loop under \<open>torch.no_grad()\<close> (which restores the
  previous gradient mode on exit) and the \<open>print\<close>, whose division raises when no
  example was processed. The assignment to \<open>accuracy\<close> that ends the cell computes
  the same quotient against the length of the data set and is read by nothing; it is
  left out.
\<close>

definition test ::
  "('w, real list list, 'img, 'e, 's) torch \<Rightarrow> globals \<Rightarrow> 'img batch list
     \<Rightarrow> ('w, 'img, 's) state \<Rightarrow> error + ('w, 'img, 's) state" where
  "test T g loader s =
     (let s1 = emit [Net_eval] (s\<lparr>net := (net s)\<lparr>training := False\<rparr>\<rparr>);
          s2 = s1\<lparr>correct := 0, total_seen := 0\<rparr>;
          s3 = emit [No_grad_enter] (s2\<lparr>grad_enabled := False\<rparr>) in
      bind_err (for_loop loader (test_batch T g) s3) (\<lambda>s4.
        let s5 = emit [No_grad_exit] (s4\<lparr>grad_enabled := grad_enabled s2\<rparr>) in
        if total_seen s5 = 0 then Inl ZeroDivisionError
        else Inr (emit [Print_accuracy (100 * real_of_int (correct s5) / real_of_int (total_seen s5))]
                    s5)))"

subsection \<open>The whole notebook\<close>

definition initial_state :: "globals \<Rightarrow> 'w params \<Rightarrow> 's \<Rightarrow> ('w, 'img, 's) state" where
  "initial_state g p ts =
     \<lparr>net = Net_init g p, torch_state = ts, grad_enabled = True, loss_hist = [],
      loss_val = None, correct = 0, total_seen = 0, trace = []\<rparr>"


subsection \<open>What the script does, up to the real values\<close>

text \<open>
  The events that a run without exception leaves, with every real number replaced by
  \<open>0\<close>: one epoch is \<open>net.train()\<close>, four calls per batch, and a printed line; the
  test pass is \<open>net.eval()\<close>, one encoding per batch inside \<open>no_grad\<close>, and a printed
  line.
\<close>

fun erase :: "'img event \<Rightarrow> 'img event" where
  "erase (Backward v) = Backward 0"
| "erase (Print_loss e n v) = Print_loss e n 0"
| "erase (Print_accuracy v) = Print_accuracy 0"
| "erase e = e"






fun is_backward :: "'img event \<Rightarrow> bool" where
  "is_backward (Backward v) = True"
| "is_backward e = False"

fun is_optimizer_step :: "'img event \<Rightarrow> bool" where
  "is_optimizer_step (Optimizer_step a) = True"
| "is_optimizer_step e = False"

subsection \<open>The contract of the library on shapes\<close>

text \<open>
  \<open>nn.Linear\<close> maps a batch of rows to a batch of as many rows, each of \<open>out_features\<close>
  entries; \<open>snn.Leaky\<close> returns spikes and a membrane of the shape of its input current;
  \<open>view(num_steps, B, -1)\<close> returns \<open>num_steps\<close> slices of \<open>B\<close> rows each. A data loader
  yields as many labels as images in every batch.
\<close>

definition has_shape :: "nat \<Rightarrow> nat \<Rightarrow> real list list \<Rightarrow> bool" where
  "has_shape B C t \<longleftrightarrow> length t = B \<and> (\<forall>r \<in> set t. length r = C)"

definition shape_contract :: "('w, real list list, 'img, 'e, 's) torch \<Rightarrow> bool" where
  "shape_contract T \<longleftrightarrow>
     (\<forall>fc x y. Linear_call T fc x = Inr y \<longrightarrow> has_shape (length x) (out_features fc) y) \<and>
     (\<forall>lif cur m spk m'. Leaky_call T lif cur m = Inr (spk, m') \<longrightarrow>
        map length spk = map length cur \<and> map length m' = map length cur) \<and>
     (\<forall>e n b x. view T e n b = Inr x \<longrightarrow> length x = n \<and> (\<forall>t \<in> set x. length t = b))"

definition well_batched :: "'img batch list \<Rightarrow> bool" where
  "well_batched loader \<longleftrightarrow> (\<forall>b \<in> set loader. length (fst b) = length (snd b))"

subsection \<open>A small instance of the library\<close>

text \<open>
  An instance on which the definitions can be run: a parameter tensor is one number, an
  image a list of pixels, the hidden state a counter. The linear layer sends a row to
  \<open>out_features\<close> copies of \<open>weight * (sum of the row) + bias\<close>; the neuron integrates
  with leak \<open>lif_beta\<close> and spikes above 1; an empty membrane stands for zeros.
\<close>

definition at2 :: "real list list \<Rightarrow> nat \<Rightarrow> nat \<Rightarrow> real" where
  "at2 m i j = (if i < length m \<and> j < length (m ! i) then m ! i ! j else 0)"

definition toy_Linear :: "real Linear \<Rightarrow> real list list \<Rightarrow> error + real list list" where
  "toy_Linear fc x =
     Inr (map (\<lambda>r. replicate (out_features fc) (weight fc * sum_list r + bias fc)) x)"

definition toy_Leaky ::
  "Leaky \<Rightarrow> real list list \<Rightarrow> real list list \<Rightarrow> error + (real list list \<times> real list list)" where
  "toy_Leaky lif cur m =
     (let m' = map (\<lambda>i. map (\<lambda>j. lif_beta lif * at2 m i j + cur ! i ! j) [0..<length (cur ! i)])
                 [0..<length cur]
      in Inr (map (map (\<lambda>v. if 1 < v then 1 else 0)) m', m'))"

definition toy_encode :: "real list list \<Rightarrow> nat \<Rightarrow> nat \<Rightarrow> real list list list" where
  "toy_encode data n k =
     map (\<lambda>t. map (map (\<lambda>p. if real ((t + k) mod 2) < 2 * p then 1 else 0)) data) [0..<n]"

definition toy_view :: "real list list list \<Rightarrow> nat \<Rightarrow> nat \<Rightarrow> error + real list list list" where
  "toy_view e n b =
     (if length e = n \<and> (\<forall>t \<in> set e. length t = b) then Inr e else Inl RuntimeError)"

definition toy_CE :: "real list list \<Rightarrow> nat list \<Rightarrow> error + real" where
  "toy_CE m targets =
     (if length m = length targets
      then Inr (sum_list (map (\<lambda>(r, y). sum_list r - at2 [r] 0 y) (zip m targets)))
      else Inl RuntimeError)"

definition toy_step :: "Adam \<Rightarrow> real params \<Rightarrow> nat \<Rightarrow> real params \<times> nat" where
  "toy_step a p k =
     (case p of ((w1, b1), (w2, b2), (w3, b3)) \<Rightarrow>
        (((w1 - lr a, b1), (w2 - lr a, b2), (w3 - lr a, b3)), Suc k))"

definition toy_torch :: "(real, real list list, real list, real list list list, nat) torch" where
  "toy_torch =
     \<lparr>Linear_call = toy_Linear, Leaky_call = toy_Leaky, init_leaky = (\<lambda>lif. []),
      latency = (\<lambda>data n. Inr (toy_encode data n 0)),
      rate = (\<lambda>data n k. Inr (toy_encode data n k, Suc k)),
      view = toy_view, CE_loss = toy_CE, zero_grad = (\<lambda>k. k),
      backward = (\<lambda>f n k. k), adam_step = toy_step\<rparr>"

definition toy_params :: "real params" where
  "toy_params = ((1, 0), (1, 0), (1 / 2, 0))"


definition toy_test_loader :: "real list batch list" where
  "toy_test_loader = [([[1, 0], [1 / 4, 1]], [0, 1]), ([[1, 1]], [1])]"

subsection \<open>Networks of one architecture\<close>

text \<open>Two networks with the same layer sizes and the same neuron constants.\<close>

definition same_arch :: "'w Net \<Rightarrow> 'w Net \<Rightarrow> bool" where
  "same_arch a b \<longleftrightarrow>
     lif1 a = lif1 b \<and> lif2 a = lif2 b \<and> lif3 a = lif3 b \<and>
     in_features (fc1 a) = in_features (fc1 b) \<and> out_features (fc1 a) = out_features (fc1 b) \<and>
     in_features (fc2 a) = in_features (fc2 b) \<and> out_features (fc2 a) = out_features (fc2 b) \<and>
     in_features (fc3 a) = in_features (fc3 b) \<and> out_features (fc3 a) = out_features (fc3 b)"

subsection \<open>When the layers do not raise\<close>

text \<open>The pass returns whenever the layers do and the input has enough time slices.\<close>

definition layers_return :: "('w, 't, 'img, 'e, 's) torch \<Rightarrow> bool" where
  "layers_return T \<longleftrightarrow>
     (\<forall>fc x. \<exists>y. Linear_call T fc x = Inr y) \<and>
     (\<forall>lif cur m. \<exists>r. Leaky_call T lif cur m = Inr r)"

section \<open>Proofs\<close>

subsection \<open>Exceptions and loops\<close>

lemma bind_err_Inr_iff: "bind_err m f = Inr y \<longleftrightarrow> (\<exists>v. m = Inr v \<and> f v = Inr y)"
  by (cases m) (simp_all add: bind_err_def)

lemma bind_err_Inr [simp]: "bind_err (Inr v) f = f v"
  by (simp add: bind_err_def)

lemma bind_err_Inl [simp]: "bind_err (Inl e) f = Inl e"
  by (simp add: bind_err_def)

lemma for_loop_append:
  "for_loop (is @ js) body s = bind_err (for_loop is body s) (for_loop js body)"
  by (induction "is" arbitrary: s) (auto simp: bind_err_def split: sum.splits)

text \<open>The state after the first \<open>k\<close> iterations of a loop that runs to its end.\<close>

lemma for_loop_prefix:
  assumes "for_loop xs body s = Inr s'"
  shows "\<exists>sk. for_loop (take k xs) body s = Inr sk \<and> for_loop (drop k xs) body sk = Inr s'"
proof -
  have "for_loop (take k xs @ drop k xs) body s = Inr s'" using assms by simp
  then show ?thesis
    unfolding for_loop_append by (simp add: bind_err_Inr_iff)
qed

lemma for_loop_cong_on:
  "(\<And>i s. i \<in> set is \<Longrightarrow> body i s = body' i s) \<Longrightarrow> for_loop is body s = for_loop is body' s"
  by (induction "is" arbitrary: s) (auto simp: bind_err_def split: sum.splits)

lemma for_loop_invariant:
  assumes "for_loop is body s = Inr s'" and "P s"
    and "\<And>i s s'. i \<in> set is \<Longrightarrow> P s \<Longrightarrow> body i s = Inr s' \<Longrightarrow> P s'"
  shows "P s'"
  using assms
proof (induction "is" arbitrary: s)
  case Nil
  then show ?case by simp
next
  case (Cons i "is")
  from Cons.prems(1) obtain s1 where s1: "body i s = Inr s1" "for_loop is body s1 = Inr s'"
    by (auto simp: bind_err_Inr_iff)
  have "P s1" using Cons.prems(2,3) s1(1) by auto
  then show ?case using Cons.IH [OF s1(2)] Cons.prems(3) by auto
qed

lemma for_loop_total:
  assumes "\<And>i s. i \<in> set is \<Longrightarrow> \<exists>s'. body i s = Inr s'"
  shows "\<exists>s'. for_loop is body s = Inr s'"
  using assms
proof (induction "is" arbitrary: s)
  case Nil
  then show ?case by simp
next
  case (Cons i "is")
  then obtain s1 where "body i s = Inr s1" by force
  then show ?case using Cons by simp
qed

lemma getitem_Inr_iff: "getitem x i = Inr v \<longleftrightarrow> i < length x \<and> v = x ! i"
  by (auto simp: getitem_def)

lemma stack_Inr_iff: "stack ts = Inr r \<longleftrightarrow> ts \<noteq> [] \<and> r = ts"
  by (auto simp: stack_def)

subsection \<open>The time loop of \<open>forward\<close>\<close>

text \<open>One iteration, when it does not raise, is the chain of the six layer calls.\<close>

lemma forward_body_Inr_ex:
  assumes "forward_body T nn x step l = Inr l'"
  shows "\<exists>cur1 spk1 m1 cur2 spk2 m2 cur3 spk3 m3.
    step < length x \<and>
    Linear_call T (fc1 nn) (x ! step) = Inr cur1 \<and>
    Leaky_call T (lif1 nn) cur1 (mem1 l) = Inr (spk1, m1) \<and>
    Linear_call T (fc2 nn) spk1 = Inr cur2 \<and>
    Leaky_call T (lif2 nn) cur2 (mem2 l) = Inr (spk2, m2) \<and>
    Linear_call T (fc3 nn) spk2 = Inr cur3 \<and>
    Leaky_call T (lif3 nn) cur3 (mem3 l) = Inr (spk3, m3) \<and>
    l' = \<lparr>mem1 = m1, mem2 = m2, mem3 = m3,
          spk3_rec = spk3_rec l @ [spk3], mem3_rec = mem3_rec l @ [m3]\<rparr>"
  using assms
  by (auto simp: forward_body_def bind_err_Inr_iff getitem_Inr_iff split: prod.splits)

lemma forward_body_Inr:
  assumes "forward_body T nn x step l = Inr l'"
  obtains cur1 spk1 m1 cur2 spk2 m2 cur3 spk3 m3 where
    "step < length x"
    "Linear_call T (fc1 nn) (x ! step) = Inr cur1"
    "Leaky_call T (lif1 nn) cur1 (mem1 l) = Inr (spk1, m1)"
    "Linear_call T (fc2 nn) spk1 = Inr cur2"
    "Leaky_call T (lif2 nn) cur2 (mem2 l) = Inr (spk2, m2)"
    "Linear_call T (fc3 nn) spk2 = Inr cur3"
    "Leaky_call T (lif3 nn) cur3 (mem3 l) = Inr (spk3, m3)"
    "l' = \<lparr>mem1 = m1, mem2 = m2, mem3 = m3,
          spk3_rec = spk3_rec l @ [spk3], mem3_rec = mem3_rec l @ [m3]\<rparr>"
  using forward_body_Inr_ex [OF assms] by blast

lemma forward_loop_records:
  assumes "for_loop is (forward_body T nn x) l = Inr l'"
  shows "\<exists>ss ms. spk3_rec l' = spk3_rec l @ ss \<and> mem3_rec l' = mem3_rec l @ ms
           \<and> length ss = length is \<and> length ms = length is"
  using assms
proof (induction "is" arbitrary: l)
  case Nil
  then show ?case by simp
next
  case (Cons i "is")
  from Cons.prems obtain l1 where
    l1: "forward_body T nn x i l = Inr l1" "for_loop is (forward_body T nn x) l1 = Inr l'"
    by (auto simp: bind_err_Inr_iff)
  from l1(1) obtain s m where
    "spk3_rec l1 = spk3_rec l @ [s]" "mem3_rec l1 = mem3_rec l @ [m]"
    by (elim forward_body_Inr) simp
  with Cons.IH [OF l1(2)] show ?case by auto
qed

lemma forward_loop_reads:
  assumes "for_loop is (forward_body T nn x) l = Inr l'"
  shows "\<forall>i \<in> set is. i < length x"
  using assms
proof (induction "is" arbitrary: l)
  case Nil
  then show ?case by simp
next
  case (Cons i "is")
  from Cons.prems obtain l1 where
    l1: "forward_body T nn x i l = Inr l1" "for_loop is (forward_body T nn x) l1 = Inr l'"
    by (auto simp: bind_err_Inr_iff)
  from l1(1) have "i < length x" by (elim forward_body_Inr)
  with Cons.IH [OF l1(2)] show ?case by simp
qed

lemma forward_Inr:
  assumes "forward T g nn x = Inr (spk, mem)"
  obtains l where
    "for_loop (py_range (num_steps g)) (forward_body T nn x) (forward_init T nn) = Inr l"
    "spk = spk3_rec l" "mem = mem3_rec l" "spk3_rec l \<noteq> []" "mem3_rec l \<noteq> []"
  using assms unfolding forward_def forward_return_def bind_err_Inr_iff stack_Inr_iff
  by auto

lemma forward_lengths:
  assumes "forward T g nn x = Inr (spk, mem)"
  shows "length spk = num_steps g" and "length mem = num_steps g"
    and "0 < num_steps g" and "num_steps g \<le> length x"
proof -
  from assms obtain l where
    l: "for_loop (py_range (num_steps g)) (forward_body T nn x) (forward_init T nn) = Inr l"
    and r: "spk = spk3_rec l" "mem = mem3_rec l" "spk3_rec l \<noteq> []"
    by (rule forward_Inr)
  from forward_loop_records [OF l] r
  show len: "length spk = num_steps g" and "length mem = num_steps g"
    by (auto simp: forward_init_def py_range_def)
  from len r show pos: "0 < num_steps g" by (cases "num_steps g") auto
  from forward_loop_reads [OF l] pos have "num_steps g - 1 < length x"
    by (simp add: py_range_def)
  with pos show "num_steps g \<le> length x" by simp
qed

lemma forward_body_returns:
  assumes "layers_return T" and "step < length x"
  shows "\<exists>l'. forward_body T nn x step l = Inr l'"
proof -
  from assms(1) have lin: "\<And>fc x. \<exists>y. Linear_call T fc x = Inr y"
    and lif: "\<And>lif cur m. \<exists>spk m'. Leaky_call T lif cur m = Inr (spk, m')"
    unfolding layers_return_def by (simp, metis surj_pair)
  obtain cur1 where 1: "Linear_call T (fc1 nn) (x ! step) = Inr cur1" using lin by blast
  obtain spk1 m1 where 2: "Leaky_call T (lif1 nn) cur1 (mem1 l) = Inr (spk1, m1)"
    using lif by blast
  obtain cur2 where 3: "Linear_call T (fc2 nn) spk1 = Inr cur2" using lin by blast
  obtain spk2 m2 where 4: "Leaky_call T (lif2 nn) cur2 (mem2 l) = Inr (spk2, m2)"
    using lif by blast
  obtain cur3 where 5: "Linear_call T (fc3 nn) spk2 = Inr cur3" using lin by blast
  obtain spk3 m3 where 6: "Leaky_call T (lif3 nn) cur3 (mem3 l) = Inr (spk3, m3)"
    using lif by blast
  show ?thesis
    using assms(2) 1 2 3 4 5 6 by (simp add: forward_body_def getitem_def)
qed

lemma forward_returns:
  assumes "layers_return T" and "0 < num_steps g" and "num_steps g \<le> length x"
  shows "\<exists>spk mem. forward T g nn x = Inr (spk, mem)"
proof -
  have "\<exists>l. for_loop (py_range (num_steps g)) (forward_body T nn x) (forward_init T nn) = Inr l"
    using assms by (intro for_loop_total forward_body_returns) (auto simp: py_range_def)
  then obtain l where
    l: "for_loop (py_range (num_steps g)) (forward_body T nn x) (forward_init T nn) = Inr l"
    by blast
  from forward_loop_records [OF l] assms(2)
  have "spk3_rec l \<noteq> []" "mem3_rec l \<noteq> []"
    by (auto simp: py_range_def forward_init_def)
  with l show ?thesis
    by (simp add: forward_def forward_return_def stack_def)
qed

lemma toy_layers_return: "layers_return toy_torch"
  by (simp add: layers_return_def toy_torch_def toy_Linear_def toy_Leaky_def Let_def)

subsection \<open>The forward pass\<close>



text \<open>
  C8. \<open>forward\<close> reads only the time slices \<open>0, \<dots>, num_steps - 1\<close> of its input: two
  inputs with the same first \<open>num_steps\<close> slices give the same result, be it the two
  records or the exception.
\<close>

theorem forward_reads_first_num_steps:
  assumes "take (num_steps g) x = take (num_steps g) y"
  shows "forward T g nn x = forward T g nn y"
proof -
  have item: "getitem x i = getitem y i" if "i < num_steps g" for i
  proof -
    have "min (num_steps g) (length x) = min (num_steps g) (length y)"
      using arg_cong [OF assms, of length] by simp
    with that have len: "i < length x \<longleftrightarrow> i < length y" by linarith
    have "take (num_steps g) x ! i = x ! i" "take (num_steps g) y ! i = y ! i"
      using that by simp_all
    with assms have "x ! i = y ! i" by simp
    with len show ?thesis by (simp add: getitem_def)
  qed
  have "for_loop (py_range (num_steps g)) (forward_body T nn x) (forward_init T nn)
      = for_loop (py_range (num_steps g)) (forward_body T nn y) (forward_init T nn)"
    by (rule for_loop_cong_on) (simp add: py_range_def forward_body_def item)
  then show ?thesis by (simp add: forward_def)
qed

theorem forward_reads_first_num_steps_witness:
  "replicate 30 [[1::real, 0]] @ [[[5, 5]]] \<noteq> replicate 30 [[1, 0]] @ [[[7, 7]], [[8, 8]]]
   \<and> take (num_steps default_globals) (replicate 30 [[1::real, 0]] @ [[[5, 5]]])
       = take (num_steps default_globals) (replicate 30 [[1, 0]] @ [[[7, 7]], [[8, 8]]])
   \<and> forward toy_torch default_globals (Net_init default_globals toy_params)
       (replicate 30 [[1, 0]] @ [[[5, 5]]])
     = forward toy_torch default_globals (Net_init default_globals toy_params)
       (replicate 30 [[1, 0]] @ [[[7, 7]], [[8, 8]]])"
proof -
  have d: "replicate 30 [[1::real, 0]] @ [[[5, 5]]]
      \<noteq> replicate 30 [[1, 0]] @ [[[7, 7]], [[8, 8]]]"
    by simp
  have h: "take (num_steps default_globals) (replicate 30 [[1::real, 0]] @ [[[5, 5]]])
       = take (num_steps default_globals) (replicate 30 [[1, 0]] @ [[[7, 7]], [[8, 8]]])"
    by (simp add: default_globals_def)
  from forward_reads_first_num_steps
    [OF h, of toy_torch "Net_init default_globals toy_params"] d h
  show ?thesis by blast
qed

text \<open>
  C6. Every LIF stage is built with the decay constant \<open>beta = 0.95\<close>, and every forward
  pass starts its three membrane potentials from \<open>init_leaky\<close>: the first entries of
  the returned records are one update of each LIF stage away from its reset state,
  whatever an earlier pass computed. The membranes are local to \<open>forward\<close>, whose
  result is a function of the network and the input alone.
\<close>

theorem membranes_reset_each_forward:
  "lif_beta (lif1 (Net_init default_globals p)) = 95 / 100 \<and>
   lif_beta (lif2 (Net_init default_globals p)) = 95 / 100 \<and>
   lif_beta (lif3 (Net_init default_globals p)) = 95 / 100 \<and>
   mem1 (forward_init T nn) = init_leaky T (lif1 nn) \<and>
   mem2 (forward_init T nn) = init_leaky T (lif2 nn) \<and>
   mem3 (forward_init T nn) = init_leaky T (lif3 nn) \<and>
   (\<forall>spk mem. forward T g nn x = Inr (spk, mem) \<longrightarrow>
      (\<exists>cur1 spk1 m1 cur2 spk2 m2 cur3.
         Linear_call T (fc1 nn) (x ! 0) = Inr cur1 \<and>
         Leaky_call T (lif1 nn) cur1 (init_leaky T (lif1 nn)) = Inr (spk1, m1) \<and>
         Linear_call T (fc2 nn) spk1 = Inr cur2 \<and>
         Leaky_call T (lif2 nn) cur2 (init_leaky T (lif2 nn)) = Inr (spk2, m2) \<and>
         Linear_call T (fc3 nn) spk2 = Inr cur3 \<and>
         Leaky_call T (lif3 nn) cur3 (init_leaky T (lif3 nn)) = Inr (spk ! 0, mem ! 0)))"
proof (intro conjI allI impI)
  fix spk mem
  assume ok: "forward T g nn x = Inr (spk, mem)"
  then obtain l where
    l: "for_loop (py_range (num_steps g)) (forward_body T nn x) (forward_init T nn) = Inr l"
    and r: "spk = spk3_rec l" "mem = mem3_rec l"
    by (rule forward_Inr)
  from forward_lengths(3) [OF ok] have "py_range (num_steps g) = 0 # [1..<num_steps g]"
    by (simp add: py_range_def upt_conv_Cons)
  with l obtain l1 where
    first: "forward_body T nn x 0 (forward_init T nn) = Inr l1"
    and rest: "for_loop [1..<num_steps g] (forward_body T nn x) l1 = Inr l"
    by (auto simp: bind_err_Inr_iff)
  from first obtain cur1 spk1 m1 cur2 spk2 m2 cur3 spk3 m3 where
    c: "Linear_call T (fc1 nn) (x ! 0) = Inr cur1"
      "Leaky_call T (lif1 nn) cur1 (mem1 (forward_init T nn)) = Inr (spk1, m1)"
      "Linear_call T (fc2 nn) spk1 = Inr cur2"
      "Leaky_call T (lif2 nn) cur2 (mem2 (forward_init T nn)) = Inr (spk2, m2)"
      "Linear_call T (fc3 nn) spk2 = Inr cur3"
      "Leaky_call T (lif3 nn) cur3 (mem3 (forward_init T nn)) = Inr (spk3, m3)"
    and l1: "l1 = \<lparr>mem1 = m1, mem2 = m2, mem3 = m3,
                 spk3_rec = spk3_rec (forward_init T nn) @ [spk3],
                 mem3_rec = mem3_rec (forward_init T nn) @ [m3]\<rparr>"
    by (rule forward_body_Inr)
  from forward_loop_records [OF rest] l1 r
  have "spk ! 0 = spk3" "mem ! 0 = m3"
    by (auto simp: forward_init_def)
  with c show "\<exists>cur1 spk1 m1 cur2 spk2 m2 cur3.
         Linear_call T (fc1 nn) (x ! 0) = Inr cur1 \<and>
         Leaky_call T (lif1 nn) cur1 (init_leaky T (lif1 nn)) = Inr (spk1, m1) \<and>
         Linear_call T (fc2 nn) spk1 = Inr cur2 \<and>
         Leaky_call T (lif2 nn) cur2 (init_leaky T (lif2 nn)) = Inr (spk2, m2) \<and>
         Linear_call T (fc3 nn) spk2 = Inr cur3 \<and>
         Leaky_call T (lif3 nn) cur3 (init_leaky T (lif3 nn)) = Inr (spk ! 0, mem ! 0)"
    by (auto simp: forward_init_def)
qed (simp_all add: Net_init_def snn_Leaky_def default_globals_def forward_init_def)

theorem membranes_reset_each_forward_witness:
  "\<exists>spk mem cur1 spk1 m1 cur2 spk2 m2 cur3.
     forward toy_torch default_globals (Net_init default_globals toy_params)
       (replicate 30 [[1, 0], [0, 1]]) = Inr (spk, mem) \<and>
     toy_Linear (fc1 (Net_init default_globals toy_params)) [[1, 0], [0, 1]] = Inr cur1 \<and>
     toy_Leaky (lif1 (Net_init default_globals toy_params)) cur1 [] = Inr (spk1, m1) \<and>
     toy_Linear (fc2 (Net_init default_globals toy_params)) spk1 = Inr cur2 \<and>
     toy_Leaky (lif2 (Net_init default_globals toy_params)) cur2 [] = Inr (spk2, m2) \<and>
     toy_Linear (fc3 (Net_init default_globals toy_params)) spk2 = Inr cur3 \<and>
     toy_Leaky (lif3 (Net_init default_globals toy_params)) cur3 [] = Inr (spk ! 0, mem ! 0)"
proof -
  have "\<exists>spk mem.
     forward toy_torch default_globals (Net_init default_globals toy_params)
       (replicate 30 [[1, 0], [0, 1]]) = Inr (spk, mem)"
    by (rule forward_returns [OF toy_layers_return]) (simp_all add: default_globals_def)
  then obtain spk mem where
    r: "forward toy_torch default_globals (Net_init default_globals toy_params)
          (replicate 30 [[1, 0], [0, 1]]) = Inr (spk, mem)"
    by blast
  from membranes_reset_each_forward
    [of toy_params toy_torch "Net_init default_globals toy_params" default_globals
        "replicate 30 [[1, 0], [0, 1]]"] r
  have "\<exists>cur1 spk1 m1 cur2 spk2 m2 cur3.
     toy_Linear (fc1 (Net_init default_globals toy_params)) [[1, 0], [0, 1]] = Inr cur1 \<and>
     toy_Leaky (lif1 (Net_init default_globals toy_params)) cur1 [] = Inr (spk1, m1) \<and>
     toy_Linear (fc2 (Net_init default_globals toy_params)) spk1 = Inr cur2 \<and>
     toy_Leaky (lif2 (Net_init default_globals toy_params)) cur2 [] = Inr (spk2, m2) \<and>
     toy_Linear (fc3 (Net_init default_globals toy_params)) spk2 = Inr cur3 \<and>
     toy_Leaky (lif3 (Net_init default_globals toy_params)) cur3 [] = Inr (spk ! 0, mem ! 0)"
    by (simp add: toy_torch_def)
  with r show ?thesis by blast
qed

subsection \<open>The training loop\<close>




lemma map_erase_idem [simp]: "map erase (map erase es) = map erase es"
  by (induction es) (simp_all, (case_tac a; simp))






text \<open>Training changes the parameters only: the layers keep their sizes and constants.\<close>

lemma same_arch_refl [simp]: "same_arch a a"
  by (simp add: same_arch_def)


lemma same_arch_set_parameters [simp]: "same_arch (set_parameters a p) a"
  by (simp add: same_arch_def set_parameters_def)

lemma same_arch_training [simp]: "same_arch (a\<lparr>training := t\<rparr>) a"
  by (simp add: same_arch_def)





subsection \<open>The test loop\<close>

lemma test_batch_Inr:
  assumes "test_batch T g (data, targets) s = Inr s'"
  shows "\<exists>e ts x outputs mem vals pred c.
           rate T data (num_steps g) (torch_state s) = Inr (e, ts) \<and>
           view T e (num_steps g) (length data) = Inr x \<and>
           forward T g (net s) x = Inr (outputs, mem) \<and>
           max1 (sum_dim0 outputs) = Inr (vals, pred) \<and>
           eq_sum pred targets = Inr c \<and>
           s' = s\<lparr>torch_state := ts, correct := correct s + c,
                  total_seen := total_seen s + int (length targets),
                  trace := trace s @ [Spikegen_rate data (num_steps g)]\<rparr>"
  using assms
  by (auto simp: test_batch_def bind_err_Inr_iff emit_def split: prod.splits)

lemma test_batch_frame:
  assumes "test_batch T g b s = Inr s'"
  shows "net s' = net s" and "grad_enabled s' = grad_enabled s"
    and "loss_hist s' = loss_hist s" and "loss_val s' = loss_val s"
    and "trace s' = trace s @ [Spikegen_rate (fst b) (num_steps g)]"
proof -
  obtain data targets where b: "b = (data, targets)" by (cases b)
  from test_batch_Inr [OF assms [unfolded b]] b
  show "net s' = net s" and "grad_enabled s' = grad_enabled s"
    and "loss_hist s' = loss_hist s" and "loss_val s' = loss_val s"
    and "trace s' = trace s @ [Spikegen_rate (fst b) (num_steps g)]"
    by auto
qed

lemma test_batches_frame:
  assumes "for_loop bs (test_batch T g) s = Inr s'"
  shows "net s' = net s \<and> grad_enabled s' = grad_enabled s
         \<and> loss_hist s' = loss_hist s \<and> loss_val s' = loss_val s
         \<and> trace s' = trace s @ map (\<lambda>b. Spikegen_rate (fst b) (num_steps g)) bs"
  using assms
proof (induction bs arbitrary: s)
  case Nil
  then show ?case by simp
next
  case (Cons b bs)
  then obtain s1 where
    s1: "test_batch T g b s = Inr s1" "for_loop bs (test_batch T g) s1 = Inr s'"
    by (auto simp: bind_err_Inr_iff)
  from test_batch_frame [OF s1(1)] Cons.IH [OF s1(2)] show ?case by simp
qed

text \<open>A test pass that does not raise, step by step.\<close>

lemma test_Inr:
  assumes "test T g loader s = Inr s'"
  shows "\<exists>s4. for_loop loader (test_batch T g)
                 (s\<lparr>net := (net s)\<lparr>training := False\<rparr>, correct := 0, total_seen := 0,
                    grad_enabled := False, trace := trace s @ [Net_eval, No_grad_enter]\<rparr>) = Inr s4
              \<and> total_seen s4 \<noteq> 0
              \<and> s' = s4\<lparr>grad_enabled := grad_enabled s,
                        trace := trace s4 @ [No_grad_exit,
                          Print_accuracy (100 * real_of_int (correct s4)
                                            / real_of_int (total_seen s4))]\<rparr>"
  using assms
  by (auto simp: test_def bind_err_Inr_iff emit_def Let_def split: if_splits)

lemma test_frame:
  assumes "test T g loader s = Inr s'"
  shows "net s' = (net s)\<lparr>training := False\<rparr>"
    and "grad_enabled s' = grad_enabled s"
    and "\<exists>a. trace s' = trace s @ [Net_eval, No_grad_enter]
             @ map (\<lambda>b. Spikegen_rate (fst b) (num_steps g)) loader
             @ [No_grad_exit, Print_accuracy a]
           \<and> a = 100 * real_of_int (correct s') / real_of_int (total_seen s')
           \<and> total_seen s' \<noteq> 0"
proof -
  from test_Inr [OF assms] obtain s4 where
    loop: "for_loop loader (test_batch T g)
                 (s\<lparr>net := (net s)\<lparr>training := False\<rparr>, correct := 0, total_seen := 0,
                    grad_enabled := False, trace := trace s @ [Net_eval, No_grad_enter]\<rparr>) = Inr s4"
    and nz: "total_seen s4 \<noteq> 0"
    and s': "s' = s4\<lparr>grad_enabled := grad_enabled s,
                        trace := trace s4 @ [No_grad_exit,
                          Print_accuracy (100 * real_of_int (correct s4)
                                            / real_of_int (total_seen s4))]\<rparr>"
    by blast
  from test_batches_frame [OF loop] s' nz
  show "net s' = (net s)\<lparr>training := False\<rparr>"
    and "grad_enabled s' = grad_enabled s"
    and "\<exists>a. trace s' = trace s @ [Net_eval, No_grad_enter]
             @ map (\<lambda>b. Spikegen_rate (fst b) (num_steps g)) loader
             @ [No_grad_exit, Print_accuracy a]
           \<and> a = 100 * real_of_int (correct s') / real_of_int (total_seen s')
           \<and> total_seen s' \<noteq> 0"
    by auto
qed




subsection \<open>Shapes\<close>

lemma has_shape_map_length:
  "has_shape B C t \<Longrightarrow> map length u = map length t \<Longrightarrow> has_shape B C u"
proof -
  assume t: "has_shape B C t" and eq: "map length u = map length t"
  from eq have "length u = length t" by (rule map_eq_imp_length_eq)
  moreover from eq have "length ` set u = length ` set t"
    by (metis list.set_map)
  ultimately show ?thesis using t by (auto simp: has_shape_def)
qed

lemma forward_body_shape:
  assumes c: "shape_contract T" and ok: "forward_body T nn x step l = Inr l'"
    and x: "length (x ! step) = B"
  shows "\<exists>spk3 m3. spk3_rec l' = spk3_rec l @ [spk3] \<and> mem3_rec l' = mem3_rec l @ [m3]
           \<and> has_shape B (out_features (fc3 nn)) spk3
           \<and> has_shape B (out_features (fc3 nn)) m3"
proof -
  from c have lin: "\<And>fc x y. Linear_call T fc x = Inr y
                      \<Longrightarrow> has_shape (length x) (out_features fc) y"
    and lif: "\<And>lif cur m spk m'. Leaky_call T lif cur m = Inr (spk, m')
                \<Longrightarrow> map length spk = map length cur \<and> map length m' = map length cur"
    unfolding shape_contract_def by blast+
  from ok obtain cur1 spk1 m1 cur2 spk2 m2 cur3 spk3 m3 where
    1: "Linear_call T (fc1 nn) (x ! step) = Inr cur1"
    and 2: "Leaky_call T (lif1 nn) cur1 (mem1 l) = Inr (spk1, m1)"
    and 3: "Linear_call T (fc2 nn) spk1 = Inr cur2"
    and 4: "Leaky_call T (lif2 nn) cur2 (mem2 l) = Inr (spk2, m2)"
    and 5: "Linear_call T (fc3 nn) spk2 = Inr cur3"
    and 6: "Leaky_call T (lif3 nn) cur3 (mem3 l) = Inr (spk3, m3)"
    and l': "l' = \<lparr>mem1 = m1, mem2 = m2, mem3 = m3,
          spk3_rec = spk3_rec l @ [spk3], mem3_rec = mem3_rec l @ [m3]\<rparr>"
    by (rule forward_body_Inr)
  have "length cur1 = B" using lin [OF 1] x by (simp add: has_shape_def)
  then have "length spk1 = B" using lif [OF 2] by (metis length_map)
  then have "length cur2 = B" using lin [OF 3] by (simp add: has_shape_def)
  then have "length spk2 = B" using lif [OF 4] by (metis length_map)
  then have "has_shape B (out_features (fc3 nn)) cur3" using lin [OF 5] by simp
  then have "has_shape B (out_features (fc3 nn)) spk3" "has_shape B (out_features (fc3 nn)) m3"
    using lif [OF 6] by (auto intro: has_shape_map_length)
  with l' show ?thesis by simp
qed

lemma forward_shape:
  assumes c: "shape_contract T" and ok: "forward T g nn x = Inr (spk, mem)"
    and x: "\<forall>t \<in> set x. length t = B"
  shows "\<forall>t \<in> set spk. has_shape B (out_features (fc3 nn)) t"
    and "\<forall>t \<in> set mem. has_shape B (out_features (fc3 nn)) t"
proof -
  let ?P = "\<lambda>l. (\<forall>t \<in> set (spk3_rec l). has_shape B (out_features (fc3 nn)) t)
               \<and> (\<forall>t \<in> set (mem3_rec l). has_shape B (out_features (fc3 nn)) t)"
  from ok obtain l where
    l: "for_loop (py_range (num_steps g)) (forward_body T nn x) (forward_init T nn) = Inr l"
    and r: "spk = spk3_rec l" "mem = mem3_rec l"
    by (rule forward_Inr)
  have "?P l"
  proof (rule for_loop_invariant [OF l, where P = ?P])
    show "?P (forward_init T nn)" by (simp add: forward_init_def)
  next
    fix i a a'
    assume P: "?P a" and step: "forward_body T nn x i a = Inr a'"
    from step have "i < length x" by (elim forward_body_Inr)
    with x have "length (x ! i) = B" by simp
    from forward_body_shape [OF c step this] P show "?P a'" by auto
  qed
  with r show "\<forall>t \<in> set spk. has_shape B (out_features (fc3 nn)) t"
    and "\<forall>t \<in> set mem. has_shape B (out_features (fc3 nn)) t"
    by simp_all
qed

subsection \<open>Sum over time, maximum along a row, comparison\<close>

lemma sum_dim0_shape:
  assumes "outputs \<noteq> []" and "\<forall>t \<in> set outputs. has_shape B C t"
  shows "has_shape B C (sum_dim0 outputs)"
proof -
  from assms obtain t ts where o: "outputs = t # ts" by (cases outputs) auto
  with assms(2) have t: "length t = B" "\<forall>b < B. length (t ! b) = C"
    by (auto simp: has_shape_def)
  then show ?thesis unfolding o by (auto simp: has_shape_def)
qed

lemma sum_dim0_nth:
  assumes "outputs \<noteq> []" and "\<forall>t \<in> set outputs. has_shape B C t" and "b < B" and "c < C"
  shows "sum_dim0 outputs ! b ! c = (\<Sum>t < length outputs. outputs ! t ! b ! c)"
proof -
  from assms obtain t ts where o: "outputs = t # ts" by (cases outputs) auto
  with assms(2) have t: "length t = B" "\<forall>b < B. length (t ! b) = C"
    by (auto simp: has_shape_def)
  have "sum_dim0 outputs ! b ! c = sum_list (map (\<lambda>u. u ! b ! c) outputs)"
    unfolding o using t assms(3,4) by simp
  also have "\<dots> = (\<Sum>k < length outputs. outputs ! k ! b ! c)"
    by (simp add: sum_list_sum_nth atLeast0LessThan)
  finally show ?thesis .
qed

text \<open>
  \<open>row_max\<close> on the rest \<open>ys\<close> of a row \<open>pre @ ys\<close>, where \<open>m\<close> is the largest entry
  of \<open>pre\<close> and \<open>i\<close> the index of its first occurrence.
\<close>

lemma row_max_correct:
  assumes "row_max m i j ys = (m', i')"
    and "length pre = j" and "i < j" and "pre ! i = m"
    and "\<forall>c < j. pre ! c \<le> m" and "\<forall>c < i. pre ! c < m"
  shows "i' < length (pre @ ys) \<and> (pre @ ys) ! i' = m'
         \<and> (\<forall>c < length (pre @ ys). (pre @ ys) ! c \<le> m')
         \<and> (\<forall>c < i'. (pre @ ys) ! c < m')"
  using assms
proof (induction ys arbitrary: m i j pre)
  case Nil
  then show ?case by simp
next
  case (Cons y ys)
  let ?pre = "pre @ [y]"
  have len: "length ?pre = Suc j" using Cons.prems(2) by simp
  show ?case
  proof (cases "m < y")
    case True
    with Cons.prems(1) have rec: "row_max y j (Suc j) ys = (m', i')" by simp
    have "?pre ! j = y" using Cons.prems(2) by (simp add: nth_append)
    moreover have "\<forall>c < Suc j. ?pre ! c \<le> y"
      using Cons.prems(2,5) True by (auto simp: nth_append less_Suc_eq)
    moreover have "\<forall>c < j. ?pre ! c < y"
      using Cons.prems(2,5) True by (auto simp: nth_append)
    ultimately have "i' < length (?pre @ ys) \<and> (?pre @ ys) ! i' = m'
         \<and> (\<forall>c < length (?pre @ ys). (?pre @ ys) ! c \<le> m')
         \<and> (\<forall>c < i'. (?pre @ ys) ! c < m')"
      using Cons.IH [OF rec len] by simp
    then show ?thesis by simp
  next
    case False
    with Cons.prems(1) have rec: "row_max m i (Suc j) ys = (m', i')" by simp
    have "i < Suc j" using Cons.prems(3) by simp
    moreover have "?pre ! i = m" using Cons.prems(2,3,4) by (simp add: nth_append)
    moreover have "\<forall>c < Suc j. ?pre ! c \<le> m"
      using Cons.prems(2,5) False by (auto simp: nth_append less_Suc_eq)
    moreover have "\<forall>c < i. ?pre ! c < m"
      using Cons.prems(2,3,6) by (auto simp: nth_append)
    ultimately have "i' < length (?pre @ ys) \<and> (?pre @ ys) ! i' = m'
         \<and> (\<forall>c < length (?pre @ ys). (?pre @ ys) ! c \<le> m')
         \<and> (\<forall>c < i'. (?pre @ ys) ! c < m')"
      using Cons.IH [OF rec len] by simp
    then show ?thesis by simp
  qed
qed

lemma max_row_correct:
  assumes "max_row r = Inr (m, i)"
  shows "i < length r \<and> r ! i = m \<and> (\<forall>c < length r. r ! c \<le> m) \<and> (\<forall>c < i. r ! c < m)"
proof -
  from assms obtain y ys where r: "r = y # ys" and rm: "row_max y 0 1 ys = (m, i)"
    by (cases r) auto
  from row_max_correct [OF rm, of "[y]"] show ?thesis
    unfolding r by simp
qed

lemma max_row_returns: "r \<noteq> [] \<Longrightarrow> \<exists>m i. max_row r = Inr (m, i)"
  by (cases r) (auto intro: surj_pair)

lemma max1_correct:
  assumes "max1 rows = Inr (vals, pred)"
  shows "length pred = length rows \<and> length vals = length rows \<and>
         (\<forall>b < length rows. pred ! b < length (rows ! b)
            \<and> vals ! b = rows ! b ! (pred ! b)
            \<and> (\<forall>c < length (rows ! b). rows ! b ! c \<le> rows ! b ! (pred ! b))
            \<and> (\<forall>c < pred ! b. rows ! b ! c < rows ! b ! (pred ! b)))"
  using assms
proof (induction rows arbitrary: vals pred)
  case Nil
  then show ?case by simp
next
  case (Cons r rows)
  from Cons.prems obtain m i ms "is" where
    r: "max_row r = Inr (m, i)" and rest: "max1 rows = Inr (ms, is)"
    and res: "vals = m # ms" "pred = i # is"
    by (auto simp: bind_err_Inr_iff)
  from max_row_correct [OF r] Cons.IH [OF rest] res show ?case
    by (auto simp: nth_Cons split: nat.splits)
qed

lemma max1_returns:
  assumes "\<forall>r \<in> set rows. r \<noteq> []"
  shows "\<exists>vals pred. max1 rows = Inr (vals, pred)"
  using assms
proof (induction rows)
  case Nil
  then show ?case by simp
next
  case (Cons r rows)
  then obtain m i vals pred where
    "max_row r = Inr (m, i)" "max1 rows = Inr (vals, pred)"
    using max_row_returns [of r] by auto
  then show ?case by simp
qed

lemma count_eq_card:
  assumes "length xs = length ys"
  shows "count_eq xs ys = int (card {i. i < length ys \<and> xs ! i = ys ! i})"
proof -
  have "{i. i < length (zip xs ys) \<and> (case zip xs ys ! i of (x, y) \<Rightarrow> x = y)}
      = {i. i < length ys \<and> xs ! i = ys ! i}"
    using assms by auto
  then show ?thesis
    by (simp add: count_eq_def length_filter_conv_card)
qed

lemma count_eq_bounds: "0 \<le> count_eq xs ys" "count_eq xs ys \<le> int (length ys)"
proof -
  show "0 \<le> count_eq xs ys" by (simp add: count_eq_def)
  have "length (filter (\<lambda>(x, y). x = y) (zip xs ys)) \<le> length (zip xs ys)"
    by (rule length_filter_le)
  then show "count_eq xs ys \<le> int (length ys)" by (simp add: count_eq_def)
qed

lemma eq_sum_same_length:
  "length pred = length targets \<Longrightarrow> eq_sum pred targets = Inr (count_eq pred targets)"
  by (simp add: eq_sum_def)

subsection \<open>One test batch under the shape contract\<close>

lemma test_batch_prediction:
  assumes c: "shape_contract T" and ok: "test_batch T g (data, targets) s = Inr s'"
    and len: "length data = length targets"
  shows "\<exists>e ts x outputs mem pred.
           rate T data (num_steps g) (torch_state s) = Inr (e, ts) \<and>
           view T e (num_steps g) (length data) = Inr x \<and>
           forward T g (net s) x = Inr (outputs, mem) \<and>
           length outputs = num_steps g \<and>
           length pred = length targets \<and>
           (\<forall>i < length targets.
              pred ! i < out_features (fc3 (net s)) \<and>
              (\<forall>c < out_features (fc3 (net s)).
                 (\<Sum>t < num_steps g. outputs ! t ! i ! c)
                   \<le> (\<Sum>t < num_steps g. outputs ! t ! i ! (pred ! i))) \<and>
              (\<forall>c < pred ! i.
                 (\<Sum>t < num_steps g. outputs ! t ! i ! c)
                   < (\<Sum>t < num_steps g. outputs ! t ! i ! (pred ! i)))) \<and>
           correct s' = correct s + int (card {i. i < length targets \<and> pred ! i = targets ! i}) \<and>
           total_seen s' = total_seen s + int (length targets)"
proof -
  let ?C = "out_features (fc3 (net s))" and ?B = "length targets"
  from test_batch_Inr [OF ok] obtain e ts x outputs mem vals pred k where
    r: "rate T data (num_steps g) (torch_state s) = Inr (e, ts)"
    and v: "view T e (num_steps g) (length data) = Inr x"
    and f: "forward T g (net s) x = Inr (outputs, mem)"
    and m: "max1 (sum_dim0 outputs) = Inr (vals, pred)"
    and q: "eq_sum pred targets = Inr k"
    and s': "s' = s\<lparr>torch_state := ts, correct := correct s + k,
                  total_seen := total_seen s + int (length targets),
                  trace := trace s @ [Spikegen_rate data (num_steps g)]\<rparr>"
    by blast
  from c v len have x: "\<forall>t \<in> set x. length t = ?B"
    unfolding shape_contract_def by metis
  from forward_shape(1) [OF c f x] have sh: "\<forall>t \<in> set outputs. has_shape ?B ?C t" .
  from forward_lengths [OF f] have n: "length outputs = num_steps g" and ne: "outputs \<noteq> []"
    by auto
  from sum_dim0_shape [OF ne sh] have ssh: "has_shape ?B ?C (sum_dim0 outputs)" .
  then have rows: "length (sum_dim0 outputs) = ?B" "\<forall>i < ?B. length (sum_dim0 outputs ! i) = ?C"
    by (auto simp: has_shape_def)
  from max1_correct [OF m] rows have pl: "length pred = ?B"
    and am: "\<forall>i < ?B. pred ! i < ?C
            \<and> (\<forall>c < ?C. sum_dim0 outputs ! i ! c \<le> sum_dim0 outputs ! i ! (pred ! i))
            \<and> (\<forall>c < pred ! i. sum_dim0 outputs ! i ! c < sum_dim0 outputs ! i ! (pred ! i))"
    by auto
  have nth: "sum_dim0 outputs ! i ! c = (\<Sum>t < num_steps g. outputs ! t ! i ! c)"
    if "i < ?B" "c < ?C" for i c
    using sum_dim0_nth [OF ne sh that] n by simp
  have arg: "\<forall>i < ?B. pred ! i < ?C \<and>
              (\<forall>c < ?C. (\<Sum>t < num_steps g. outputs ! t ! i ! c)
                   \<le> (\<Sum>t < num_steps g. outputs ! t ! i ! (pred ! i))) \<and>
              (\<forall>c < pred ! i. (\<Sum>t < num_steps g. outputs ! t ! i ! c)
                   < (\<Sum>t < num_steps g. outputs ! t ! i ! (pred ! i)))"
  proof (intro allI impI)
    fix i
    assume i: "i < ?B"
    with am have p: "pred ! i < ?C"
      and le: "\<forall>c < ?C. sum_dim0 outputs ! i ! c \<le> sum_dim0 outputs ! i ! (pred ! i)"
      and lt: "\<forall>c < pred ! i. sum_dim0 outputs ! i ! c < sum_dim0 outputs ! i ! (pred ! i)"
      by auto
    show "pred ! i < ?C \<and>
              (\<forall>c < ?C. (\<Sum>t < num_steps g. outputs ! t ! i ! c)
                   \<le> (\<Sum>t < num_steps g. outputs ! t ! i ! (pred ! i))) \<and>
              (\<forall>c < pred ! i. (\<Sum>t < num_steps g. outputs ! t ! i ! c)
                   < (\<Sum>t < num_steps g. outputs ! t ! i ! (pred ! i)))"
    proof (intro conjI allI impI)
      show "pred ! i < ?C" by (rule p)
    next
      fix c assume "c < ?C"
      with le nth [OF i] p
      show "(\<Sum>t < num_steps g. outputs ! t ! i ! c)
              \<le> (\<Sum>t < num_steps g. outputs ! t ! i ! (pred ! i))"
        by metis
    next
      fix c assume cp: "c < pred ! i"
      with p have "c < ?C" by simp
      with lt cp nth [OF i] p
      show "(\<Sum>t < num_steps g. outputs ! t ! i ! c)
              < (\<Sum>t < num_steps g. outputs ! t ! i ! (pred ! i))"
        by metis
    qed
  qed
  from q pl have "k = count_eq pred targets" by (simp add: eq_sum_same_length)
  with pl have k: "k = int (card {i. i < ?B \<and> pred ! i = targets ! i})"
    by (simp add: count_eq_card)
  from r v f n pl arg k s' show ?thesis by auto
qed

lemma test_batch_counters:
  assumes c: "shape_contract T" and ok: "test_batch T g b s = Inr s'"
    and len: "length (fst b) = length (snd b)"
  shows "correct s \<le> correct s'"
    and "correct s' - correct s \<le> int (length (snd b))"
    and "total_seen s' = total_seen s + int (length (snd b))"
proof -
  obtain data targets where b: "b = (data, targets)" by (cases b)
  with len have l: "length data = length targets" by simp
  from test_batch_prediction [OF c ok [unfolded b] l] obtain pred where
    cr: "correct s' = correct s + int (card {i. i < length targets \<and> pred ! i = targets ! i})"
    and tt: "total_seen s' = total_seen s + int (length targets)"
    by blast
  have "card {i. i < length targets \<and> pred ! i = targets ! i} \<le> card {..<length targets}"
    by (rule card_mono) auto
  then have "card {i. i < length targets \<and> pred ! i = targets ! i} \<le> length targets"
    by simp
  with cr tt b show "correct s \<le> correct s'"
    and "correct s' - correct s \<le> int (length (snd b))"
    and "total_seen s' = total_seen s + int (length (snd b))"
    by simp_all
qed

lemma test_batches_counters:
  assumes c: "shape_contract T" and wb: "well_batched bs"
    and ok: "for_loop bs (test_batch T g) s = Inr s'"
  shows "correct s \<le> correct s'
         \<and> correct s' - correct s \<le> total_seen s' - total_seen s
         \<and> total_seen s' = total_seen s + int (sum_list (map (\<lambda>b. length (snd b)) bs))"
  using wb ok
proof (induction bs arbitrary: s)
  case Nil
  then show ?case by simp
next
  case (Cons b bs)
  from Cons.prems(2) obtain s1 where
    s1: "test_batch T g b s = Inr s1" "for_loop bs (test_batch T g) s1 = Inr s'"
    by (auto simp: bind_err_Inr_iff)
  from Cons.prems(1) have len: "length (fst b) = length (snd b)" and wb': "well_batched bs"
    by (simp_all add: well_batched_def)
  from test_batch_counters [OF c s1(1) len] Cons.IH [OF wb' s1(2)]
  show ?case by simp
qed

subsection \<open>The small instance never raises on well-formed batches\<close>

lemma toy_fields [simp]:
  "Linear_call toy_torch = toy_Linear"
  "Leaky_call toy_torch = toy_Leaky"
  "init_leaky toy_torch = (\<lambda>lif. [])"
  "latency toy_torch = (\<lambda>data n. Inr (toy_encode data n 0))"
  "rate toy_torch = (\<lambda>data n k. Inr (toy_encode data n k, Suc k))"
  "view toy_torch = toy_view"
  "CE_loss toy_torch = toy_CE"
  "zero_grad toy_torch = (\<lambda>k. k)"
  "backward toy_torch = (\<lambda>f n k. k)"
  "adam_step toy_torch = toy_step"
  by (simp_all add: toy_torch_def)

lemma toy_encode_shape:
  "length (toy_encode data n k) = n" "\<forall>t \<in> set (toy_encode data n k). length t = length data"
  by (auto simp: toy_encode_def)

lemma toy_view_encode:
  "toy_view (toy_encode data n k) n (length data) = Inr (toy_encode data n k)"
  using toy_encode_shape [of data n k] by (simp add: toy_view_def)

lemma toy_shape_contract: "shape_contract toy_torch"
proof -
  have "map length (map (\<lambda>i. map (f i) [0..<length (cur ! i)]) [0..<length cur]) = map length cur"
    for f :: "nat \<Rightarrow> nat \<Rightarrow> real" and cur :: "real list list"
    by (rule nth_equalityI) simp_all
  then show ?thesis
    by (auto simp: shape_contract_def toy_Linear_def toy_Leaky_def toy_view_def
        has_shape_def Let_def comp_def)
qed

lemma for_loop_total_inv:
  assumes "P s" and "\<And>i s. i \<in> set is \<Longrightarrow> P s \<Longrightarrow> \<exists>s'. body i s = Inr s' \<and> P s'"
  shows "\<exists>s'. for_loop is body s = Inr s' \<and> P s'"
  using assms
proof (induction "is" arbitrary: s)
  case Nil
  then show ?case by simp
next
  case (Cons i "is")
  from Cons.prems obtain s1 where s1: "body i s = Inr s1" "P s1" by force
  from Cons.IH [OF s1(2)] Cons.prems(2) obtain s' where "for_loop is body s1 = Inr s'" "P s'"
    by force
  with s1 show ?case by simp
qed

lemma toy_forward_returns:
  assumes "0 < num_steps g"
  shows "\<exists>outputs mem.
           forward toy_torch g nn (toy_encode data (num_steps g) k) = Inr (outputs, mem)"
  using assms by (intro forward_returns toy_layers_return) (simp_all add: toy_encode_shape)



lemma toy_test_batch_returns:
  assumes n: "0 < num_steps g" and len: "length (fst b) = length (snd b)"
    and w: "0 < out_features (fc3 (net s))"
  shows "\<exists>s'. test_batch toy_torch g b s = Inr s' \<and> net s' = net s"
proof -
  obtain data targets where b: "b = (data, targets)" by (cases b)
  let ?x = "toy_encode data (num_steps g) (torch_state s)"
  from toy_forward_returns [OF n] obtain outputs mem where
    f: "forward toy_torch g (net s) ?x = Inr (outputs, mem)"
    by blast
  from forward_lengths [OF f] have ne: "outputs \<noteq> []" by auto
  from forward_shape(1) [OF toy_shape_contract f toy_encode_shape(2)]
  have "has_shape (length data) (out_features (fc3 (net s))) (sum_dim0 outputs)"
    by (intro sum_dim0_shape ne)
  with w have sh: "length (sum_dim0 outputs) = length data" "\<forall>r \<in> set (sum_dim0 outputs). r \<noteq> []"
    by (auto simp: has_shape_def)
  from max1_returns [OF sh(2)] obtain vals pred where
    m: "max1 (sum_dim0 outputs) = Inr (vals, pred)"
    by blast
  from max1_correct [OF m] sh(1) len b have "length pred = length targets" by simp
  then have "eq_sum pred targets = Inr (count_eq pred targets)" by (rule eq_sum_same_length)
  with f m show ?thesis
    unfolding b by (simp add: test_batch_def toy_view_encode emit_def)
qed


lemma toy_test_returns:
  assumes n: "0 < num_steps g" and wb: "well_batched loader"
    and w: "0 < out_features (fc3 (net s))" and ne: "\<exists>b \<in> set loader. snd b \<noteq> []"
  shows "\<exists>s'. test toy_torch g loader s = Inr s'"
proof -
  let ?s3 = "emit [No_grad_enter]
    ((emit [Net_eval] (s\<lparr>net := (net s)\<lparr>training := False\<rparr>\<rparr>))
       \<lparr>correct := 0, total_seen := 0, grad_enabled := False\<rparr>)"
  let ?P = "\<lambda>t :: (real, real list, nat) state. 0 < out_features (fc3 (net t))"
  have "\<exists>s4. for_loop loader (test_batch toy_torch g) ?s3 = Inr s4 \<and> ?P s4"
  proof (rule for_loop_total_inv)
    show "?P ?s3" using w by (simp add: emit_def)
  next
    fix b and t :: "(real, real list, nat) state"
    assume "b \<in> set loader" and "?P t"
    with wb toy_test_batch_returns [OF n, of b t]
    show "\<exists>t'. test_batch toy_torch g b t = Inr t' \<and> ?P t'"
      by (auto simp: well_batched_def)
  qed
  then obtain s4 where s4: "for_loop loader (test_batch toy_torch g) ?s3 = Inr s4"
    by blast
  from test_batches_counters [OF toy_shape_contract wb s4]
  have "total_seen s4 = int (sum_list (map (\<lambda>b. length (snd b)) loader))"
    by (simp add: emit_def)
  moreover from ne have "sum_list (map (\<lambda>b. length (snd b)) loader) \<noteq> 0"
    by auto
  ultimately have "total_seen s4 \<noteq> 0" by simp
  with s4 show ?thesis
    by (simp add: test_def Let_def emit_def)
qed


subsection \<open>Counting events\<close>









subsection \<open>The network\<close>

text \<open>
  C1, as the specification states it, puts an LIF stage after each of four layers, the
  784-unit input layer included: four LIF stages. The network built by \<open>Net.__init__\<close>
  has three, one after each linear layer, and none on the input.
\<close>

theorem topology_four_lif_counterexample:
  "topology (Net_init default_globals toy_params) \<noteq> spec_topology
   \<and> count_list (topology (Net_init default_globals toy_params)) Lif = 3
   \<and> count_list spec_topology Lif = 4"
  by (simp add: topology_def children_def spec_topology_def Net_init_def nn_Linear_def
      default_globals_def)

text \<open>
  C1, amended. The network is a fixed chain of three fully-connected layers, each followed
  by an LIF stage: 784 inputs, \<open>fc1\<close> (784 to 64), LIF, \<open>fc2\<close> (64 to 64), LIF,
  \<open>fc3\<close> (64 to 10), LIF. There are three LIF stages and none is applied to the
  784-unit input. Every time step of \<open>forward\<close> sends its slice through the six modules
  in this order.
\<close>

theorem topology_three_linear_three_lif:
  "topology (Net_init default_globals p)
     = [Units 784, Units 64, Lif, Units 64, Lif, Units 10, Lif] \<and>
   count_list (topology (Net_init default_globals p)) Lif = 3 \<and>
   children nn = [FC (fc1 nn), LIF (lif1 nn), FC (fc2 nn), LIF (lif2 nn),
                  FC (fc3 nn), LIF (lif3 nn)] \<and>
   in_features (fc1 (Net_init default_globals p)) = 784 \<and>
   out_features (fc1 (Net_init default_globals p)) = 64 \<and>
   in_features (fc2 (Net_init default_globals p)) = 64 \<and>
   out_features (fc2 (Net_init default_globals p)) = 64 \<and>
   in_features (fc3 (Net_init default_globals p)) = 64 \<and>
   out_features (fc3 (Net_init default_globals p)) = 10 \<and>
   (\<forall>l'. forward_body T nn x step l = Inr l' \<longrightarrow>
      (\<exists>cur1 spk1 m1 cur2 spk2 m2 cur3 spk3 m3.
         Linear_call T (fc1 nn) (x ! step) = Inr cur1 \<and>
         Leaky_call T (lif1 nn) cur1 (mem1 l) = Inr (spk1, m1) \<and>
         Linear_call T (fc2 nn) spk1 = Inr cur2 \<and>
         Leaky_call T (lif2 nn) cur2 (mem2 l) = Inr (spk2, m2) \<and>
         Linear_call T (fc3 nn) spk2 = Inr cur3 \<and>
         Leaky_call T (lif3 nn) cur3 (mem3 l) = Inr (spk3, m3) \<and>
         spk3_rec l' = spk3_rec l @ [spk3] \<and> mem3_rec l' = mem3_rec l @ [m3]))"
proof (intro conjI allI impI)
  fix l'
  assume "forward_body T nn x step l = Inr l'"
  from forward_body_Inr_ex [OF this]
  show "\<exists>cur1 spk1 m1 cur2 spk2 m2 cur3 spk3 m3.
         Linear_call T (fc1 nn) (x ! step) = Inr cur1 \<and>
         Leaky_call T (lif1 nn) cur1 (mem1 l) = Inr (spk1, m1) \<and>
         Linear_call T (fc2 nn) spk1 = Inr cur2 \<and>
         Leaky_call T (lif2 nn) cur2 (mem2 l) = Inr (spk2, m2) \<and>
         Linear_call T (fc3 nn) spk2 = Inr cur3 \<and>
         Leaky_call T (lif3 nn) cur3 (mem3 l) = Inr (spk3, m3) \<and>
         spk3_rec l' = spk3_rec l @ [spk3] \<and> mem3_rec l' = mem3_rec l @ [m3]"
    by force
qed (simp_all add: topology_def children_def Net_init_def nn_Linear_def default_globals_def)

theorem topology_three_linear_three_lif_witness:
  "\<exists>l' cur1 spk1 m1 cur2 spk2 m2 cur3 spk3 m3.
     forward_body toy_torch (Net_init default_globals toy_params) [[[1, 0], [0, 1]]] 0
       (forward_init toy_torch (Net_init default_globals toy_params)) = Inr l' \<and>
     toy_Linear (fc1 (Net_init default_globals toy_params)) [[1, 0], [0, 1]] = Inr cur1 \<and>
     toy_Leaky (lif1 (Net_init default_globals toy_params)) cur1 [] = Inr (spk1, m1) \<and>
     toy_Linear (fc2 (Net_init default_globals toy_params)) spk1 = Inr cur2 \<and>
     toy_Leaky (lif2 (Net_init default_globals toy_params)) cur2 [] = Inr (spk2, m2) \<and>
     toy_Linear (fc3 (Net_init default_globals toy_params)) spk2 = Inr cur3 \<and>
     toy_Leaky (lif3 (Net_init default_globals toy_params)) cur3 [] = Inr (spk3, m3) \<and>
     spk3_rec l' = [spk3] \<and> mem3_rec l' = [m3]"
proof -
  let ?nn = "Net_init default_globals toy_params"
  have "\<exists>l'. forward_body toy_torch ?nn [[[1, 0], [0, 1]]] 0 (forward_init toy_torch ?nn) = Inr l'"
    by (rule forward_body_returns [OF toy_layers_return]) simp
  then obtain l' where
    r: "forward_body toy_torch ?nn [[[1, 0], [0, 1]]] 0 (forward_init toy_torch ?nn) = Inr l'"
    by blast
  from topology_three_linear_three_lif
    [of toy_params ?nn toy_torch "[[[1, 0], [0, 1]]]" 0 "forward_init toy_torch ?nn"] r
  have "\<exists>cur1 spk1 m1 cur2 spk2 m2 cur3 spk3 m3.
     toy_Linear (fc1 ?nn) [[1, 0], [0, 1]] = Inr cur1 \<and>
     toy_Leaky (lif1 ?nn) cur1 [] = Inr (spk1, m1) \<and>
     toy_Linear (fc2 ?nn) spk1 = Inr cur2 \<and>
     toy_Leaky (lif2 ?nn) cur2 [] = Inr (spk2, m2) \<and>
     toy_Linear (fc3 ?nn) spk2 = Inr cur3 \<and>
     toy_Leaky (lif3 ?nn) cur3 [] = Inr (spk3, m3) \<and>
     spk3_rec l' = [spk3] \<and> mem3_rec l' = [m3]"
    by (simp add: forward_init_def)
  with r show ?thesis by blast
qed

subsection \<open>Facts about the default configuration\<close>


lemma num_steps_default: "num_steps default_globals = 30"
  by (simp add: default_globals_def)



lemma well_batched_sizes:
  "well_batched bs \<Longrightarrow> map (\<lambda>b. length (snd b)) bs = map (\<lambda>b. length (fst b)) bs"
  by (simp add: well_batched_def)

subsection \<open>The training loop\<close>







subsection \<open>The test loop\<close>

text \<open>
  C9. A test pass that runs to its end leaves the weights and biases of \<open>fc1\<close>, \<open>fc2\<close>
  and \<open>fc3\<close> as they were: it puts the network in evaluation mode, enters \<open>no_grad\<close>,
  and calls neither \<open>backward\<close> nor the optimizer; after any number of batches the
  parameters are those at the start and gradients are still disabled.
\<close>

theorem test_leaves_parameters_unchanged:
  "(\<forall>s'. test T g loader s = Inr s' \<longrightarrow>
      parameters (net s') = parameters (net s) \<and>
      fc1 (net s') = fc1 (net s) \<and> fc2 (net s') = fc2 (net s) \<and> fc3 (net s') = fc3 (net s) \<and>
      \<not> training (net s') \<and>
      (\<exists>es. trace s' = trace s @ [Net_eval, No_grad_enter] @ es \<and>
         filter is_optimizer_step es = [] \<and> filter is_backward es = [])) \<and>
   (\<forall>sk. for_loop (take k loader) (test_batch T g)
           (s\<lparr>net := (net s)\<lparr>training := False\<rparr>, correct := 0, total_seen := 0,
              grad_enabled := False, trace := trace s @ [Net_eval, No_grad_enter]\<rparr>) = Inr sk \<longrightarrow>
      parameters (net sk) = parameters (net s) \<and> \<not> training (net sk) \<and> \<not> grad_enabled sk)"
proof (intro conjI allI impI)
  fix s'
  assume ok: "test T g loader s = Inr s'"
  from test_frame(1) [OF ok]
  show "parameters (net s') = parameters (net s)" "fc1 (net s') = fc1 (net s)"
    "fc2 (net s') = fc2 (net s)" "fc3 (net s') = fc3 (net s)" "\<not> training (net s')"
    by (simp_all add: parameters_def)
  from test_frame(3) [OF ok] obtain a where
    "trace s' = trace s @ [Net_eval, No_grad_enter]
       @ (map (\<lambda>b. Spikegen_rate (fst b) (num_steps g)) loader @ [No_grad_exit, Print_accuracy a])"
    by auto
  moreover have "filter is_optimizer_step
       (map (\<lambda>b. Spikegen_rate (fst b) (num_steps g)) loader @ [No_grad_exit, Print_accuracy a]) = []"
    "filter is_backward
       (map (\<lambda>b. Spikegen_rate (fst b) (num_steps g)) loader @ [No_grad_exit, Print_accuracy a]) = []"
    by (induction loader) simp_all
  ultimately show "\<exists>es. trace s' = trace s @ [Net_eval, No_grad_enter] @ es \<and>
         filter is_optimizer_step es = [] \<and> filter is_backward es = []"
    by blast
next
  fix sk
  assume "for_loop (take k loader) (test_batch T g)
           (s\<lparr>net := (net s)\<lparr>training := False\<rparr>, correct := 0, total_seen := 0,
              grad_enabled := False, trace := trace s @ [Net_eval, No_grad_enter]\<rparr>) = Inr sk"
  from test_batches_frame [OF this]
  show "parameters (net sk) = parameters (net s)" "\<not> training (net sk)" "\<not> grad_enabled sk"
    by (simp_all add: parameters_def)
qed

theorem test_leaves_parameters_unchanged_witness:
  "\<exists>s' sk.
     test toy_torch default_globals toy_test_loader
       (initial_state default_globals toy_params 0) = Inr s' \<and>
     for_loop (take 1 toy_test_loader) (test_batch toy_torch default_globals)
       ((initial_state default_globals toy_params 0)
          \<lparr>net := (Net_init default_globals toy_params)\<lparr>training := False\<rparr>,
           correct := 0, total_seen := 0, grad_enabled := False,
           trace := [Net_eval, No_grad_enter]\<rparr>) = Inr sk \<and>
     parameters (net s') = toy_params \<and> \<not> training (net s') \<and>
     parameters (net sk) = toy_params \<and> \<not> grad_enabled sk"
proof -
  let ?s = "initial_state default_globals toy_params 0 :: (real, real list, nat) state"
  let ?s3 = "?s\<lparr>net := (net ?s)\<lparr>training := False\<rparr>, correct := 0, total_seen := 0,
               grad_enabled := False, trace := trace ?s @ [Net_eval, No_grad_enter]\<rparr>"
  have n: "0 < num_steps default_globals" by (simp add: default_globals_def)
  have w: "0 < out_features (fc3 (net ?s))"
    by (simp add: initial_state_def Net_init_def nn_Linear_def default_globals_def)
  have p: "parameters (net ?s) = toy_params"
    by (simp add: initial_state_def Net_init_def nn_Linear_def parameters_def)
  have "\<exists>s'. test toy_torch default_globals toy_test_loader ?s = Inr s'"
    by (rule toy_test_returns [OF n _ w]) (simp_all add: toy_test_loader_def well_batched_def)
  then obtain s' where s': "test toy_torch default_globals toy_test_loader ?s = Inr s'"
    by blast
  have "\<exists>sk. for_loop (take 1 toy_test_loader) (test_batch toy_torch default_globals) ?s3
          = Inr sk \<and> net sk = net ?s3"
  proof (rule for_loop_total_inv [where P = "\<lambda>t. net t = net ?s3"])
    fix b and t :: "(real, real list, nat) state"
    assume "b \<in> set (take 1 toy_test_loader)" and "net t = net ?s3"
    with w toy_test_batch_returns [OF n, of b t]
    show "\<exists>t'. test_batch toy_torch default_globals b t = Inr t' \<and> net t' = net ?s3"
      by (auto simp: toy_test_loader_def)
  qed simp
  then obtain sk where
    sk: "for_loop (take 1 toy_test_loader) (test_batch toy_torch default_globals) ?s3 = Inr sk"
    by blast
  from test_leaves_parameters_unchanged
    [of toy_torch default_globals toy_test_loader ?s 1] s' sk p
  have "parameters (net s') = toy_params \<and> \<not> training (net s') \<and>
     parameters (net sk) = toy_params \<and> \<not> grad_enabled sk"
    by simp
  moreover from sk have "for_loop (take 1 toy_test_loader) (test_batch toy_torch default_globals)
       ((initial_state default_globals toy_params 0)
          \<lparr>net := (Net_init default_globals toy_params)\<lparr>training := False\<rparr>,
           correct := 0, total_seen := 0, grad_enabled := False,
           trace := [Net_eval, No_grad_enter]\<rparr>) = Inr sk"
    by (simp add: initial_state_def)
  ultimately show ?thesis using s' by blast
qed

text \<open>
  C3. Under the library's shape contract, for a batch with one label per image: the
  prediction for every example is an index below the number of classes (the
  \<open>out_features\<close> of \<open>fc3\<close>, which is 10 for the network of the notebook) at which the
  spike outputs summed over the \<open>num_steps\<close> time steps are largest (the first such
  index); \<open>correct\<close> grows by the number of examples whose prediction equals the label
  and the total by the number of examples. The test pass starts both counters at 0 and
  prints \<open>100 * correct / total\<close> for their final values.
\<close>

theorem prediction_is_argmax_and_accuracy_is_ratio:
  assumes "shape_contract T"
  shows
  "out_features (fc3 (Net_init default_globals p)) = 10 \<and>
   (\<forall>s'. test_batch T g (data, targets) s = Inr s' \<and> length data = length targets \<longrightarrow>
      (\<exists>e ts x outputs mem pred.
         rate T data (num_steps g) (torch_state s) = Inr (e, ts) \<and>
         view T e (num_steps g) (length data) = Inr x \<and>
         forward T g (net s) x = Inr (outputs, mem) \<and>
         length outputs = num_steps g \<and>
         length pred = length targets \<and>
         (\<forall>i < length targets.
            pred ! i < out_features (fc3 (net s)) \<and>
            (\<forall>c < out_features (fc3 (net s)).
               (\<Sum>t < num_steps g. outputs ! t ! i ! c)
                 \<le> (\<Sum>t < num_steps g. outputs ! t ! i ! (pred ! i))) \<and>
            (\<forall>c < pred ! i.
               (\<Sum>t < num_steps g. outputs ! t ! i ! c)
                 < (\<Sum>t < num_steps g. outputs ! t ! i ! (pred ! i)))) \<and>
         correct s' = correct s + int (card {i. i < length targets \<and> pred ! i = targets ! i}) \<and>
         total_seen s' = total_seen s + int (length targets))) \<and>
   (\<forall>s'. test T g loader s = Inr s' \<longrightarrow>
      (\<exists>s4 es.
         for_loop loader (test_batch T g)
           (s\<lparr>net := (net s)\<lparr>training := False\<rparr>, correct := 0, total_seen := 0,
              grad_enabled := False, trace := trace s @ [Net_eval, No_grad_enter]\<rparr>) = Inr s4 \<and>
         correct s' = correct s4 \<and> total_seen s' = total_seen s4 \<and> total_seen s' \<noteq> 0 \<and>
         trace s' = es @
           [Print_accuracy (100 * real_of_int (correct s') / real_of_int (total_seen s'))]))"
proof (intro conjI allI impI)
  show "out_features (fc3 (Net_init default_globals p)) = 10"
    by (simp add: Net_init_def nn_Linear_def default_globals_def)
next
  fix s'
  assume "test_batch T g (data, targets) s = Inr s' \<and> length data = length targets"
  then show "\<exists>e ts x outputs mem pred.
         rate T data (num_steps g) (torch_state s) = Inr (e, ts) \<and>
         view T e (num_steps g) (length data) = Inr x \<and>
         forward T g (net s) x = Inr (outputs, mem) \<and>
         length outputs = num_steps g \<and>
         length pred = length targets \<and>
         (\<forall>i < length targets.
            pred ! i < out_features (fc3 (net s)) \<and>
            (\<forall>c < out_features (fc3 (net s)).
               (\<Sum>t < num_steps g. outputs ! t ! i ! c)
                 \<le> (\<Sum>t < num_steps g. outputs ! t ! i ! (pred ! i))) \<and>
            (\<forall>c < pred ! i.
               (\<Sum>t < num_steps g. outputs ! t ! i ! c)
                 < (\<Sum>t < num_steps g. outputs ! t ! i ! (pred ! i)))) \<and>
         correct s' = correct s + int (card {i. i < length targets \<and> pred ! i = targets ! i}) \<and>
         total_seen s' = total_seen s + int (length targets)"
    using test_batch_prediction [OF assms] by blast
next
  fix s'
  assume "test T g loader s = Inr s'"
  from test_Inr [OF this] obtain s4 where
    loop: "for_loop loader (test_batch T g)
           (s\<lparr>net := (net s)\<lparr>training := False\<rparr>, correct := 0, total_seen := 0,
              grad_enabled := False, trace := trace s @ [Net_eval, No_grad_enter]\<rparr>) = Inr s4"
    and nz: "total_seen s4 \<noteq> 0"
    and s': "s' = s4\<lparr>grad_enabled := grad_enabled s,
                    trace := trace s4 @ [No_grad_exit,
                      Print_accuracy (100 * real_of_int (correct s4)
                                        / real_of_int (total_seen s4))]\<rparr>"
    by blast
  from s' have "trace s' = (trace s4 @ [No_grad_exit]) @
           [Print_accuracy (100 * real_of_int (correct s') / real_of_int (total_seen s'))]"
    by simp
  with loop nz s'
  show "\<exists>s4 es.
         for_loop loader (test_batch T g)
           (s\<lparr>net := (net s)\<lparr>training := False\<rparr>, correct := 0, total_seen := 0,
              grad_enabled := False, trace := trace s @ [Net_eval, No_grad_enter]\<rparr>) = Inr s4 \<and>
         correct s' = correct s4 \<and> total_seen s' = total_seen s4 \<and> total_seen s' \<noteq> 0 \<and>
         trace s' = es @
           [Print_accuracy (100 * real_of_int (correct s') / real_of_int (total_seen s'))]"
    by (intro exI [of _ s4] exI [of _ "trace s4 @ [No_grad_exit]"]) simp
qed

theorem prediction_is_argmax_and_accuracy_is_ratio_witness:
  "shape_contract toy_torch \<and>
   (\<exists>s1 s2 x outputs mem pred.
      test_batch toy_torch default_globals ([[1, 0], [1 / 4, 1]], [0, 1])
        (initial_state default_globals toy_params 0) = Inr s1 \<and>
      test toy_torch default_globals toy_test_loader
        (initial_state default_globals toy_params 0) = Inr s2 \<and>
      forward toy_torch default_globals (Net_init default_globals toy_params) x
        = Inr (outputs, mem) \<and>
      length pred = 2 \<and>
      (\<forall>i < 2. pred ! i < 10 \<and>
         (\<forall>c < 10. (\<Sum>t < 30. outputs ! t ! i ! c) \<le> (\<Sum>t < 30. outputs ! t ! i ! (pred ! i)))) \<and>
      correct s1 = int (card {i. i < 2 \<and> pred ! i = [0, 1] ! i}) \<and>
      total_seen s1 = 2 \<and>
      total_seen s2 \<noteq> 0 \<and>
      last (trace s2)
        = Print_accuracy (100 * real_of_int (correct s2) / real_of_int (total_seen s2)))"
proof -
  let ?s = "initial_state default_globals toy_params 0 :: (real, real list, nat) state"
  let ?data = "[[1, 0], [1 / 4, 1]] :: real list list" and ?targets = "[0, 1] :: nat list"
  have n: "0 < num_steps default_globals" by (simp add: default_globals_def)
  have nn: "net ?s = Net_init default_globals toy_params" by (simp add: initial_state_def)
  have w: "out_features (fc3 (net ?s)) = 10"
    by (simp add: initial_state_def Net_init_def nn_Linear_def default_globals_def)
  have c0: "correct ?s = 0" "total_seen ?s = 0" by (simp_all add: initial_state_def)
  from w have w': "0 < out_features (fc3 (net ?s))" by simp
  from toy_test_batch_returns [OF n _ w', of "(?data, ?targets)"] obtain s1 where
    s1: "test_batch toy_torch default_globals (?data, ?targets) ?s = Inr s1"
    by auto
  have "\<exists>s2. test toy_torch default_globals toy_test_loader ?s = Inr s2"
    by (rule toy_test_returns [OF n _ w']) (simp_all add: toy_test_loader_def well_batched_def)
  then obtain s2 where s2: "test toy_torch default_globals toy_test_loader ?s = Inr s2"
    by blast
  note inst = prediction_is_argmax_and_accuracy_is_ratio
    [OF toy_shape_contract, of toy_params default_globals ?data ?targets ?s toy_test_loader]
  have len: "length ?data = length ?targets" by simp
  from inst [THEN conjunct2, THEN conjunct1, rule_format, OF conjI [OF s1 len]]
  obtain x outputs mem pred where
    f: "forward toy_torch default_globals (net ?s) x = Inr (outputs, mem)"
    and pl: "length pred = length ?targets"
    and am: "\<forall>i < length ?targets.
            pred ! i < out_features (fc3 (net ?s)) \<and>
            (\<forall>c < out_features (fc3 (net ?s)).
               (\<Sum>t < num_steps default_globals. outputs ! t ! i ! c)
                 \<le> (\<Sum>t < num_steps default_globals. outputs ! t ! i ! (pred ! i))) \<and>
            (\<forall>c < pred ! i.
               (\<Sum>t < num_steps default_globals. outputs ! t ! i ! c)
                 < (\<Sum>t < num_steps default_globals. outputs ! t ! i ! (pred ! i)))"
    and cr: "correct s1
       = correct ?s + int (card {i. i < length ?targets \<and> pred ! i = ?targets ! i})"
    and tt: "total_seen s1 = total_seen ?s + int (length ?targets)"
    by blast
  from inst [THEN conjunct2, THEN conjunct2, rule_format, OF s2]
  obtain es where nz: "total_seen s2 \<noteq> 0"
    and tr: "trace s2 = es @
           [Print_accuracy (100 * real_of_int (correct s2) / real_of_int (total_seen s2))]"
    by blast
  have 1: "forward toy_torch default_globals (Net_init default_globals toy_params) x
        = Inr (outputs, mem)"
    using f nn by simp
  have l2: "length ?targets = 2" by simp
  have 2: "length pred = 2" using pl unfolding l2 .
  have 3: "\<forall>i < 2. pred ! i < 10 \<and>
         (\<forall>c < 10. (\<Sum>t < 30. outputs ! t ! i ! c) \<le> (\<Sum>t < 30. outputs ! t ! i ! (pred ! i)))"
    using am unfolding w num_steps_default l2 by blast
  have 4: "correct s1 = int (card {i. i < 2 \<and> pred ! i = [0, 1] ! i})"
    using cr unfolding l2 c0 by simp
  have 5: "total_seen s1 = 2" using tt unfolding l2 c0 by simp
  have 6: "last (trace s2)
        = Print_accuracy (100 * real_of_int (correct s2) / real_of_int (total_seen s2))"
    using tr by simp
  from toy_shape_contract s1 s2 1 2 3 4 5 nz 6 show ?thesis by blast
qed

text \<open>
  C10. Under the library's shape contract and for a loader whose batches have one label
  per image: after any number \<open>k\<close> of batches of the test loop the counters satisfy
  \<open>0 \<le> correct \<le> total\<close>, and \<open>total\<close> is the sum of the sizes of the \<open>k\<close> batches
  processed (by \<open>for_loop_prefix\<close> the loop over the first \<open>k\<close> batches ends in the
  state that the whole loop passes through); the accuracy printed by a pass that ends
  lies between 0 and 100. (With no example at all the division raises and nothing is
  printed.)
\<close>

theorem counters_bounded_and_accuracy_in_range:
  assumes "shape_contract T" and "well_batched loader"
  shows
  "(\<forall>s3 sk. correct s3 = 0 \<and> total_seen s3 = 0 \<and>
        for_loop (take k loader) (test_batch T g) s3 = Inr sk \<longrightarrow>
      0 \<le> correct sk \<and> correct sk \<le> total_seen sk \<and>
      total_seen sk = int (sum_list (map (\<lambda>b. length (fst b)) (take k loader)))) \<and>
   (\<forall>s'. test T g loader s = Inr s' \<longrightarrow>
      0 \<le> correct s' \<and> correct s' \<le> total_seen s' \<and> 0 < total_seen s' \<and>
      total_seen s' = int (sum_list (map (\<lambda>b. length (fst b)) loader)) \<and>
      (\<exists>es a. trace s' = es @ [Print_accuracy a] \<and>
         a = 100 * real_of_int (correct s') / real_of_int (total_seen s') \<and>
         0 \<le> a \<and> a \<le> 100))"
proof (intro conjI allI impI)
  have wbk: "well_batched (take k loader)"
    using assms(2) by (auto simp: well_batched_def dest: in_set_takeD)
  {
    fix s3 sk
    assume a: "correct s3 = 0 \<and> total_seen s3 = 0 \<and>
        for_loop (take k loader) (test_batch T g) s3 = Inr sk"
    then have loop: "for_loop (take k loader) (test_batch T g) s3 = Inr sk" by simp
    from test_batches_counters [OF assms(1) wbk loop] a well_batched_sizes [OF wbk]
    show "0 \<le> correct sk" "correct sk \<le> total_seen sk"
      "total_seen sk = int (sum_list (map (\<lambda>b. length (fst b)) (take k loader)))"
      by simp_all
  }
  {
    fix s'
    assume "test T g loader s = Inr s'"
    from test_Inr [OF this] obtain s4 where
      loop: "for_loop loader (test_batch T g)
             (s\<lparr>net := (net s)\<lparr>training := False\<rparr>, correct := 0, total_seen := 0,
                grad_enabled := False, trace := trace s @ [Net_eval, No_grad_enter]\<rparr>) = Inr s4"
      and nz: "total_seen s4 \<noteq> 0"
      and s': "s' = s4\<lparr>grad_enabled := grad_enabled s,
                      trace := trace s4 @ [No_grad_exit,
                        Print_accuracy (100 * real_of_int (correct s4)
                                          / real_of_int (total_seen s4))]\<rparr>"
      by blast
    from test_batches_counters [OF assms loop] well_batched_sizes [OF assms(2)] s'
    have c: "0 \<le> correct s'" "correct s' \<le> total_seen s'"
      and t: "total_seen s' = int (sum_list (map (\<lambda>b. length (fst b)) loader))"
      by simp_all
    from s' nz have "total_seen s' \<noteq> 0" by simp
    moreover from t have "0 \<le> total_seen s'" by simp
    ultimately have pos: "0 < total_seen s'" by linarith
    show "0 \<le> correct s'" "correct s' \<le> total_seen s'" "0 < total_seen s'"
      "total_seen s' = int (sum_list (map (\<lambda>b. length (fst b)) loader))"
      by (rule c t pos)+
    let ?a = "100 * real_of_int (correct s') / real_of_int (total_seen s')"
    have "0 \<le> ?a" using c pos by simp
    moreover have "real_of_int (correct s') / real_of_int (total_seen s') \<le> 1"
      using c pos by simp
    then have "?a \<le> 100" by simp
    moreover from s' have "trace s' = (trace s4 @ [No_grad_exit]) @ [Print_accuracy ?a]"
      by simp
    ultimately show "\<exists>es a. trace s' = es @ [Print_accuracy a] \<and>
         a = 100 * real_of_int (correct s') / real_of_int (total_seen s') \<and>
         0 \<le> a \<and> a \<le> 100"
      by blast
  }
qed

theorem counters_bounded_and_accuracy_in_range_witness:
  "shape_contract toy_torch \<and> well_batched toy_test_loader \<and>
   (\<exists>sk s'.
      for_loop (take 1 toy_test_loader) (test_batch toy_torch default_globals)
        (initial_state default_globals toy_params 0) = Inr sk \<and>
      test toy_torch default_globals toy_test_loader
        (initial_state default_globals toy_params 0) = Inr s' \<and>
      0 \<le> correct sk \<and> correct sk \<le> total_seen sk \<and> total_seen sk = 2 \<and>
      0 \<le> correct s' \<and> correct s' \<le> total_seen s' \<and> total_seen s' = 3 \<and>
      (\<exists>es a. trace s' = es @ [Print_accuracy a] \<and>
         a = 100 * real_of_int (correct s') / real_of_int (total_seen s') \<and>
         0 \<le> a \<and> a \<le> 100))"
proof -
  let ?s = "initial_state default_globals toy_params 0 :: (real, real list, nat) state"
  have n: "0 < num_steps default_globals" by (simp add: default_globals_def)
  have w: "0 < out_features (fc3 (net ?s))"
    by (simp add: initial_state_def Net_init_def nn_Linear_def default_globals_def)
  have c0: "correct ?s = 0 \<and> total_seen ?s = 0" by (simp add: initial_state_def)
  have wb: "well_batched toy_test_loader"
    by (simp add: toy_test_loader_def well_batched_def)
  have "\<exists>sk. for_loop (take 1 toy_test_loader) (test_batch toy_torch default_globals) ?s
          = Inr sk \<and> net sk = net ?s"
  proof (rule for_loop_total_inv [where P = "\<lambda>t. net t = net ?s"])
    fix b and t :: "(real, real list, nat) state"
    assume "b \<in> set (take 1 toy_test_loader)" and "net t = net ?s"
    with w toy_test_batch_returns [OF n, of b t]
    show "\<exists>t'. test_batch toy_torch default_globals b t = Inr t' \<and> net t' = net ?s"
      by (auto simp: toy_test_loader_def)
  qed simp
  then obtain sk where
    sk: "for_loop (take 1 toy_test_loader) (test_batch toy_torch default_globals) ?s = Inr sk"
    by blast
  have "\<exists>s'. test toy_torch default_globals toy_test_loader ?s = Inr s'"
    by (rule toy_test_returns [OF n wb w]) (simp add: toy_test_loader_def)
  then obtain s' where s': "test toy_torch default_globals toy_test_loader ?s = Inr s'"
    by blast
  note inst = counters_bounded_and_accuracy_in_range
    [OF toy_shape_contract wb, of 1 default_globals ?s]
  from inst [THEN conjunct1, rule_format, of ?s sk] c0 sk
  have k: "0 \<le> correct sk" "correct sk \<le> total_seen sk"
    "total_seen sk = int (sum_list (map (\<lambda>b. length (fst b)) (take 1 toy_test_loader)))"
    by simp_all
  from inst [THEN conjunct2, rule_format, OF s']
  have f: "0 \<le> correct s'" "correct s' \<le> total_seen s'"
    "total_seen s' = int (sum_list (map (\<lambda>b. length (fst b)) toy_test_loader))"
    "\<exists>es a. trace s' = es @ [Print_accuracy a] \<and>
         a = 100 * real_of_int (correct s') / real_of_int (total_seen s') \<and>
         0 \<le> a \<and> a \<le> 100"
    by blast+
  from k(3) have k3: "total_seen sk = 2" by (simp add: toy_test_loader_def)
  from f(3) have f3: "total_seen s' = 3" by (simp add: toy_test_loader_def)
  from toy_shape_contract wb sk s' k(1,2) k3 f(1,2) f3 f(4) show ?thesis by blast
qed


end
